theory Spec2Isabelle
  imports Complex_Main "HOL-Library.Word"
begin

section \<open>JavaScript values\<close>

subsection \<open>Numbers\<close>

text \<open>
  A JavaScript \<^verbatim>\<open>number\<close> is an IEEE 754 double: a finite value, one of the two
  infinities, or NaN. A finite value is kept as the rational it denotes, and every
  arithmetic operation rounds its exact result to the nearest double, ties to the even
  significand, as the hardware does. A decimal literal of the source denotes the double
  nearest to it (\<^verbatim>\<open>0.5\<close> is 1/2 itself). The sign of zero is not kept: every divisor in
  the program is a dimension the browser reports (an image, canvas or layout size), which
  is never negative zero, so a zero divisor is +0 and the sign of a quotient by zero is
  the sign of the dividend.
\<close>

datatype jsnum = Fin rat | PInf | NInf | NaN

function ilog2 :: "int \<Rightarrow> int" where
  \<comment> \<open>the position of the leading bit of a positive integer\<close>
  "ilog2 n = (if n < 2 then 0 else ilog2 (n div 2) + 1)"
  by pat_completeness auto
termination
  by (relation "measure nat") auto

definition pow2 :: "int \<Rightarrow> rat" where
  "pow2 e = (if 0 \<le> e then 2 ^ nat e else 1 / 2 ^ nat (- e))"

definition exponent :: "rat \<Rightarrow> int" where
  \<comment> \<open>for a positive \<open>q\<close>, the \<open>e\<close> with \<open>2 ^ e \<le> q < 2 ^ (e + 1)\<close>: the leading bits of
      the numerator and the denominator give it up to one\<close>
  "exponent q =
     (let (a, b) = quotient_of q; d = ilog2 a - ilog2 b
      in if pow2 d \<le> q then d else d - 1)"

definition round_half_even :: "rat \<Rightarrow> int" where
  "round_half_even x =
     (let f = \<lfloor>x\<rfloor>; d = x - of_int f
      in if d < 1 / 2 then f else if 1 / 2 < d then f + 1 else if even f then f else f + 1)"

definition round_double :: "rat \<Rightarrow> jsnum" where
  \<comment> \<open>round to nearest, ties to even, in binary64: 53 significant bits, the smallest
      exponent -1022 (below it the spacing stays at \<open>2 ^ -1074\<close>), and an infinity once
      the rounded significand passes the largest exponent 1023\<close>
  "round_double q =
     (if q = 0 then Fin 0
      else
        let e = exponent \<bar>q\<bar>;
            u = pow2 (max e (- 1022) - 52);
            k = round_half_even (\<bar>q\<bar> / u)
        in if 1023 < e \<or> (e = 1023 \<and> k = 2 ^ 53) then (if 0 < q then PInf else NInf)
           else Fin (if 0 < q then of_int k * u else - (of_int k * u)))"

definition lit :: "rat \<Rightarrow> jsnum" where
  \<comment> \<open>the number a decimal literal denotes\<close>
  "lit q = round_double q"

fun jneg :: "jsnum \<Rightarrow> jsnum" where
  "jneg (Fin a) = Fin (- a)"
| "jneg PInf = NInf"
| "jneg NInf = PInf"
| "jneg NaN = NaN"

fun jadd :: "jsnum \<Rightarrow> jsnum \<Rightarrow> jsnum" where
  "jadd (Fin a) (Fin b) = round_double (a + b)"
| "jadd NaN _ = NaN"
| "jadd _ NaN = NaN"
| "jadd PInf NInf = NaN"
| "jadd NInf PInf = NaN"
| "jadd PInf _ = PInf"
| "jadd NInf _ = NInf"
| "jadd (Fin a) b = b"

definition jsub :: "jsnum \<Rightarrow> jsnum \<Rightarrow> jsnum" where
  "jsub a b = jadd a (jneg b)"

definition signed_inf :: "rat \<Rightarrow> jsnum" where
  \<comment> \<open>an infinity times or divided by a finite value of this sign; zero gives NaN\<close>
  "signed_inf a = (if a = 0 then NaN else if 0 < a then PInf else NInf)"

fun jmul :: "jsnum \<Rightarrow> jsnum \<Rightarrow> jsnum" where
  "jmul (Fin a) (Fin b) = round_double (a * b)"
| "jmul NaN _ = NaN"
| "jmul _ NaN = NaN"
| "jmul (Fin a) PInf = signed_inf a"
| "jmul (Fin a) NInf = signed_inf (- a)"
| "jmul PInf (Fin b) = signed_inf b"
| "jmul NInf (Fin b) = signed_inf (- b)"
| "jmul PInf PInf = PInf"
| "jmul NInf NInf = PInf"
| "jmul PInf NInf = NInf"
| "jmul NInf PInf = NInf"

fun jdiv :: "jsnum \<Rightarrow> jsnum \<Rightarrow> jsnum" where
  "jdiv (Fin a) (Fin b) = (if b = 0 then signed_inf a else round_double (a / b))"
| "jdiv NaN _ = NaN"
| "jdiv _ NaN = NaN"
| "jdiv (Fin a) PInf = Fin 0"
| "jdiv (Fin a) NInf = Fin 0"
| "jdiv PInf (Fin b) = (if 0 \<le> b then PInf else NInf)"
| "jdiv NInf (Fin b) = (if 0 \<le> b then NInf else PInf)"
| "jdiv PInf _ = NaN"
| "jdiv NInf _ = NaN"

fun jle :: "jsnum \<Rightarrow> jsnum \<Rightarrow> bool" where
  \<comment> \<open>\<^verbatim>\<open>a <= b\<close>: false as soon as one side is NaN\<close>
  "jle NaN _ = False"
| "jle _ NaN = False"
| "jle (Fin a) (Fin b) = (a \<le> b)"
| "jle NInf _ = True"
| "jle _ PInf = True"
| "jle PInf _ = False"
| "jle (Fin a) NInf = False"

definition jge :: "jsnum \<Rightarrow> jsnum \<Rightarrow> bool" where
  \<comment> \<open>\<^verbatim>\<open>a >= b\<close>\<close>
  "jge a b = jle b a"

definition jmin :: "jsnum \<Rightarrow> jsnum \<Rightarrow> jsnum" where
  \<comment> \<open>\<^verbatim>\<open>Math.min(a, b)\<close>: NaN if either argument is NaN\<close>
  "jmin a b = (if a = NaN \<or> b = NaN then NaN else if jle a b then a else b)"

definition of_dim :: "nat \<Rightarrow> jsnum" where
  \<comment> \<open>reading an integer dimension as a number: dimensions are 32-bit integers, which
      doubles hold exactly\<close>
  "of_dim n = Fin (of_nat n)"

fun int_part :: "jsnum \<Rightarrow> int" where
  \<comment> \<open>the integer below a finite value, and 0 for NaN and the infinities\<close>
  "int_part (Fin a) = \<lfloor>a\<rfloor>"
| "int_part _ = 0"

definition toCanvasDim :: "jsnum \<Rightarrow> nat" where
  \<comment> \<open>\<^verbatim>\<open>canvas.width = v\<close> and \<^verbatim>\<open>canvas.height = v\<close>: the two properties of
      \<^verbatim>\<open>HTMLCanvasElement\<close> are unsigned integers, so the assignment keeps the integer
      part of a finite value and stores 0 for NaN and the infinities. The values the
      program assigns are never negative and stay within a pixel of the container's
      \<^verbatim>\<open>clientWidth\<close>, so the wrap-around of the conversion is not reached.\<close>
  "toCanvasDim v = nat (int_part v)"

subsection \<open>Strings\<close>

text \<open>A string is a sequence of UTF-16 code units.\<close>

type_synonym jsstring = "16 word list"

definition isWhiteSpace :: "16 word \<Rightarrow> bool" where
  \<comment> \<open>the code units \<^verbatim>\<open>String.prototype.trim\<close> strips: WhiteSpace and LineTerminator\<close>
  "isWhiteSpace c \<longleftrightarrow>
     c \<in> {0x9, 0xA, 0xB, 0xC, 0xD, 0x20, 0xA0, 0x1680, 0x2028, 0x2029, 0x202F, 0x205F,
          0x3000, 0xFEFF}
     \<or> (0x2000 \<le> c \<and> c \<le> 0x200A)"

definition trim :: "jsstring \<Rightarrow> jsstring" where
  "trim t = rev (dropWhile isWhiteSpace (rev (dropWhile isWhiteSpace t)))"

definition js :: "string \<Rightarrow> jsstring" where
  \<comment> \<open>an ASCII literal as code units\<close>
  "js t = map (\<lambda>c. of_nat (of_char c)) t"

section \<open>The page's state\<close>

text \<open>
  The module-level variables of \<^verbatim>\<open>index.tsx\<close>, the canvas element's two dimensions and
  what has been painted on it since it was last sized, and the canvas cursor. The
  buttons, inputs, tray and captions list of the page are not part of the model.
\<close>

record ImageData =
  img_id :: nat
  src :: jsstring

record imageEl =
  \<comment> \<open>a decoded \<^verbatim>\<open>HTMLImageElement\<close>: its dimensions are unsigned integers\<close>
  width :: nat
  height :: nat
  el_src :: jsstring

record position =
  rx :: jsnum
  ry :: jsnum

datatype overlay = TopText | BottomText

datatype cursor = CursorUnset | CursorMove | CursorDefault

record textStyle =
  \<comment> \<open>the context properties \<^verbatim>\<open>redrawCanvas\<close> sets from the state; the stroke colour
      (black), the alignment (center), the line join (round) and the face
      (bold Impact) are constants of the source\<close>
  fillStyle :: jsstring
  lineWidth :: jsnum
  fontPx :: jsnum

datatype drawOp =
    ClearRect jsnum jsnum jsnum jsnum
  | DrawImage imageEl jsnum jsnum jsnum jsnum
  | StrokeText textStyle jsstring jsnum jsnum
  | FillText textStyle jsstring jsnum jsnum

record state =
  image_el :: "imageEl option"
  uploadedImages :: "ImageData list"
  nextImageId :: nat
  baseImageId :: "nat option"
  sourceImageIds :: "nat list"
  topText :: jsstring
  bottomText :: jsstring
  fontSize :: jsnum
  textColor :: jsstring
  topTextPosition :: "position option"
  bottomTextPosition :: "position option"
  isDragging :: bool
  draggingText :: "overlay option"
  dragStartX :: jsnum
  dragStartY :: jsnum
  canvas_width :: nat
  canvas_height :: nat
  surface :: "drawOp list"
  cursor :: cursor

record platform =
  \<comment> \<open>what the browser provides and the source only calls: whether
      \<^verbatim>\<open>canvas.getContext('2d')\<close> returned a context, the width \<^verbatim>\<open>measureText\<close> reports
      for a text in \<^verbatim>\<open>bold <size>px Impact\<close>, \<^verbatim>\<open>toUpperCase\<close>, and the PNG data URL of a
      canvas of given dimensions and content\<close>
  ctx :: bool
  measureText :: "jsnum \<Rightarrow> jsstring \<Rightarrow> jsnum"
  toUpperCase :: "jsstring \<Rightarrow> jsstring"
  toDataURL :: "nat \<Rightarrow> nat \<Rightarrow> drawOp list \<Rightarrow> jsstring"

record layout =
  \<comment> \<open>what the page layout reports when an event is handled: \<^verbatim>\<open>clientWidth\<close> of the
      canvas container and \<^verbatim>\<open>canvas.getBoundingClientRect()\<close>\<close>
  clientWidth :: nat
  rect_left :: jsnum
  rect_top :: jsnum
  rect_width :: jsnum
  rect_height :: jsnum

definition default_fontSize :: jsnum where
  "default_fontSize = Fin 40"

definition default_textColor :: jsstring where
  "default_textColor = js ''#ffffff''"

definition initial :: "nat \<Rightarrow> nat \<Rightarrow> state" where
  \<comment> \<open>the variables as the module initialises them, on a canvas of the page's size\<close>
  "initial w h =
     \<lparr>image_el = None, uploadedImages = [], nextImageId = 0, baseImageId = None,
      sourceImageIds = [], topText = [], bottomText = [], fontSize = default_fontSize,
      textColor = default_textColor, topTextPosition = None, bottomTextPosition = None,
      isDragging = False, draggingText = None, dragStartX = Fin 0, dragStartY = Fin 0,
      canvas_width = w, canvas_height = h, surface = [], cursor = CursorUnset\<rparr>"

section \<open>Canvas logic\<close>

definition resetTextPositions :: "platform \<Rightarrow> state \<Rightarrow> state" where
  "resetTextPositions p s =
     (if \<not> ctx p \<or> image_el s = None \<or> canvas_width s = 0 \<or> canvas_height s = 0 then s
      else s\<lparr>topTextPosition :=
                Some \<lparr>rx = Fin (1 / 2),
                      ry = jdiv (jmul (fontSize s) (lit (6 / 5))) (of_dim (canvas_height s))\<rparr>,
              bottomTextPosition :=
                Some \<lparr>rx = Fin (1 / 2),
                      ry = jdiv (jsub (of_dim (canvas_height s)) (jmul (fontSize s) (lit (2 / 5))))
                             (of_dim (canvas_height s))\<rparr>\<rparr>)"

definition scale_of :: "nat \<Rightarrow> imageEl \<Rightarrow> jsnum" where
  \<comment> \<open>\<^verbatim>\<open>Math.min(canvasWidth / image.width, canvasWidth / image.height)\<close>\<close>
  "scale_of canvasWidth img =
     jmin (jdiv (of_dim canvasWidth) (of_dim (width img)))
          (jdiv (of_dim canvasWidth) (of_dim (height img)))"

definition style_of :: "state \<Rightarrow> textStyle" where
  "style_of s =
     \<lparr>fillStyle = textColor s, lineWidth = jdiv (fontSize s) (Fin 15), fontPx = fontSize s\<rparr>"

definition drawText :: "platform \<Rightarrow> state \<Rightarrow> jsstring \<Rightarrow> position \<Rightarrow> drawOp list" where
  \<comment> \<open>\<^verbatim>\<open>strokeText\<close> then \<^verbatim>\<open>fillText\<close> of the uppercased text at the anchor's pixel position\<close>
  "drawText p s t pos =
     (let x = jmul (rx pos) (of_dim (canvas_width s));
          y = jmul (ry pos) (of_dim (canvas_height s))
      in [StrokeText (style_of s) (toUpperCase p t) x y,
          FillText (style_of s) (toUpperCase p t) x y])"

definition paint :: "platform \<Rightarrow> imageEl \<Rightarrow> position \<Rightarrow> position \<Rightarrow> state \<Rightarrow> drawOp list" where
  \<comment> \<open>lines 147 to 162 of \<^verbatim>\<open>redrawCanvas\<close>\<close>
  "paint p img tp bp s =
     [ClearRect (Fin 0) (Fin 0) (of_dim (canvas_width s)) (of_dim (canvas_height s)),
      DrawImage img (Fin 0) (Fin 0) (of_dim (canvas_width s)) (of_dim (canvas_height s))]
     @ drawText p s (topText s) tp @ drawText p s (bottomText s) bp"

definition redrawCanvas :: "platform \<Rightarrow> nat \<Rightarrow> state \<Rightarrow> state" where
  \<comment> \<open>the second argument is \<^verbatim>\<open>canvasContainer.clientWidth\<close>; assigning a dimension
      clears the canvas\<close>
  "redrawCanvas p canvasWidth s =
     (case image_el s of
        None \<Rightarrow> s
      | Some img \<Rightarrow>
          if \<not> ctx p then s
          else
            let scale = scale_of canvasWidth img;
                imgWidth = jmul (of_dim (width img)) scale;
                imgHeight = jmul (of_dim (height img)) scale;
                s1 = s\<lparr>canvas_width := toCanvasDim imgWidth,
                       canvas_height := toCanvasDim imgHeight, surface := []\<rparr>;
                s2 = (if topTextPosition s1 = None then resetTextPositions p s1 else s1)
            in (case topTextPosition s2 of
                  None \<Rightarrow> s2
                | Some tp \<Rightarrow>
                    (case bottomTextPosition s2 of
                       None \<Rightarrow> s2
                     | Some bp \<Rightarrow> s2\<lparr>surface := paint p img tp bp s2\<rparr>)))"

definition setBaseImage :: "ImageData option \<Rightarrow> state \<Rightarrow> state" where
  \<comment> \<open>the synchronous part: with image data the decoding only starts here, and
      \<^verbatim>\<open>onload\<close> below runs when it completes\<close>
  "setBaseImage imageData s =
     (case imageData of
        Some d \<Rightarrow>
          s\<lparr>baseImageId := Some (img_id d),
            sourceImageIds := filter (\<lambda>i. i \<noteq> img_id d) (sourceImageIds s)\<rparr>
      | None \<Rightarrow>
          s\<lparr>baseImageId := None, image_el := None, canvas_width := 0, canvas_height := 0,
            surface := []\<rparr>)"

definition onload :: "platform \<Rightarrow> nat \<Rightarrow> imageEl \<Rightarrow> state \<Rightarrow> state" where
  \<comment> \<open>\<^verbatim>\<open>newImage.onload\<close> of \<^verbatim>\<open>setBaseImage\<close>\<close>
  "onload p canvasWidth newImage s =
     redrawCanvas p canvasWidth (s\<lparr>image_el := Some newImage, topTextPosition := None\<rparr>)"

definition isMouseOverText ::
  "platform \<Rightarrow> state \<Rightarrow> jsnum \<Rightarrow> jsnum \<Rightarrow> jsstring \<Rightarrow> position option \<Rightarrow> bool" where
  "isMouseOverText p s mouseX mouseY t textRelPos =
     (case textRelPos of
        None \<Rightarrow> False
      | Some pos \<Rightarrow>
          if \<not> ctx p \<or> trim t = [] then False
          else
            let x = jmul (rx pos) (of_dim (canvas_width s));
                y = jmul (ry pos) (of_dim (canvas_height s));
                textWidth = measureText p (fontSize s) (toUpperCase p t);
                textHeight = fontSize s;
                textLeft = jsub x (jdiv textWidth (Fin 2));
                textRight = jadd x (jdiv textWidth (Fin 2));
                textTop = jsub y textHeight;
                textBottom = jadd y (jmul textHeight (lit (1 / 5)))
            in jge mouseX textLeft \<and> jle mouseX textRight
               \<and> jge mouseY textTop \<and> jle mouseY textBottom)"

definition triggerMemeDownload :: "platform \<Rightarrow> state \<Rightarrow> bool \<times> jsstring option" where
  \<comment> \<open>the returned boolean, and the data URL the download link is clicked with\<close>
  "triggerMemeDownload p s =
     (case image_el s of
        None \<Rightarrow> (False, None)
      | Some _ \<Rightarrow> (True, Some (toDataURL p (canvas_width s) (canvas_height s) (surface s))))"

section \<open>Event handlers\<close>

definition topTextInput_input :: "platform \<Rightarrow> nat \<Rightarrow> jsstring \<Rightarrow> state \<Rightarrow> state" where
  "topTextInput_input p canvasWidth v s = redrawCanvas p canvasWidth (s\<lparr>topText := v\<rparr>)"

definition bottomTextInput_input :: "platform \<Rightarrow> nat \<Rightarrow> jsstring \<Rightarrow> state \<Rightarrow> state" where
  "bottomTextInput_input p canvasWidth v s = redrawCanvas p canvasWidth (s\<lparr>bottomText := v\<rparr>)"

definition fontSizeSlider_input :: "platform \<Rightarrow> nat \<Rightarrow> jsnum \<Rightarrow> state \<Rightarrow> state" where
  \<comment> \<open>the third argument is what \<^verbatim>\<open>parseInt\<close> made of the slider's value\<close>
  "fontSizeSlider_input p canvasWidth v s = redrawCanvas p canvasWidth (s\<lparr>fontSize := v\<rparr>)"

definition textColorPicker_input :: "platform \<Rightarrow> nat \<Rightarrow> jsstring \<Rightarrow> state \<Rightarrow> state" where
  "textColorPicker_input p canvasWidth v s = redrawCanvas p canvasWidth (s\<lparr>textColor := v\<rparr>)"

definition remixBtn_click :: "state \<Rightarrow> state" where
  \<comment> \<open>the click handler of the remix button, lines 866 to 882\<close>
  "remixBtn_click s =
     (setBaseImage None s)
       \<lparr>uploadedImages := [], nextImageId := 0, sourceImageIds := [], topText := [],
        bottomText := [], topTextPosition := None, bottomTextPosition := None\<rparr>"

subsection \<open>Dragging\<close>

definition getCanvasCoordinates :: "layout \<Rightarrow> state \<Rightarrow> jsnum \<Rightarrow> jsnum \<Rightarrow> jsnum \<times> jsnum" where
  "getCanvasCoordinates l s clientX clientY =
     (let scaleX = jdiv (of_dim (canvas_width s)) (rect_width l);
          scaleY = jdiv (of_dim (canvas_height s)) (rect_height l)
      in (jmul (jsub clientX (rect_left l)) scaleX, jmul (jsub clientY (rect_top l)) scaleY))"

definition startDrag :: "overlay \<Rightarrow> jsnum \<Rightarrow> jsnum \<Rightarrow> state \<Rightarrow> state" where
  \<comment> \<open>the four assignments of either branch of \<^verbatim>\<open>handleDragStart\<close>\<close>
  "startDrag which mouseX mouseY s =
     s\<lparr>isDragging := True, draggingText := Some which, dragStartX := mouseX,
       dragStartY := mouseY\<rparr>"

definition handleDragStart :: "platform \<Rightarrow> layout \<Rightarrow> jsnum \<Rightarrow> jsnum \<Rightarrow> state \<Rightarrow> state" where
  "handleDragStart p l clientX clientY s =
     (if topTextPosition s = None \<or> bottomTextPosition s = None then s
      else
        let (mouseX, mouseY) = getCanvasCoordinates l s clientX clientY
        in if isMouseOverText p s mouseX mouseY (topText s) (topTextPosition s)
           then startDrag TopText mouseX mouseY s
           else if isMouseOverText p s mouseX mouseY (bottomText s) (bottomTextPosition s)
           then startDrag BottomText mouseX mouseY s
           else s)"

definition moveBy :: "jsnum \<Rightarrow> jsnum \<Rightarrow> state \<Rightarrow> position \<Rightarrow> position" where
  \<comment> \<open>\<^verbatim>\<open>pos.rx += dx / canvas.width; pos.ry += dy / canvas.height\<close>\<close>
  "moveBy dx dy s pos =
     pos\<lparr>rx := jadd (rx pos) (jdiv dx (of_dim (canvas_width s))),
         ry := jadd (ry pos) (jdiv dy (of_dim (canvas_height s)))\<rparr>"

definition handleDragMove :: "platform \<Rightarrow> layout \<Rightarrow> jsnum \<Rightarrow> jsnum \<Rightarrow> state \<Rightarrow> state" where
  "handleDragMove p l clientX clientY s =
     (let (mouseX, mouseY) = getCanvasCoordinates l s clientX clientY;
          s1 = s\<lparr>cursor :=
                   (if isDragging s
                       \<or> isMouseOverText p s mouseX mouseY (topText s) (topTextPosition s)
                       \<or> isMouseOverText p s mouseX mouseY (bottomText s) (bottomTextPosition s)
                    then CursorMove else CursorDefault)\<rparr>
      in if \<not> isDragging s1 \<or> topTextPosition s1 = None \<or> bottomTextPosition s1 = None then s1
         else
           let dx = jsub mouseX (dragStartX s1);
               dy = jsub mouseY (dragStartY s1);
               s2 = (case draggingText s1 of
                       Some TopText \<Rightarrow>
                         s1\<lparr>topTextPosition := map_option (moveBy dx dy s1) (topTextPosition s1)\<rparr>
                     | Some BottomText \<Rightarrow>
                         s1\<lparr>bottomTextPosition :=
                              map_option (moveBy dx dy s1) (bottomTextPosition s1)\<rparr>
                     | None \<Rightarrow> s1)
           in redrawCanvas p (clientWidth l) (s2\<lparr>dragStartX := mouseX, dragStartY := mouseY\<rparr>))"

definition handleDragEnd :: "state \<Rightarrow> state" where
  "handleDragEnd s =
     (if isDragging s then s\<lparr>isDragging := False, draggingText := None, cursor := CursorDefault\<rparr>
      else s)"

datatype pointer_event =
    PointerDown layout jsnum jsnum
  | PointerMove layout jsnum jsnum
  | PointerEnd

fun dispatch :: "platform \<Rightarrow> state \<Rightarrow> pointer_event \<Rightarrow> state" where
  \<comment> \<open>the mouse and touch listeners of the canvas: down and touchstart, move and
      touchmove, and up, out, touchend and touchcancel\<close>
  "dispatch p s (PointerDown l x y) = handleDragStart p l x y s"
| "dispatch p s (PointerMove l x y) = handleDragMove p l x y s"
| "dispatch p s PointerEnd = handleDragEnd s"

section \<open>Observations and example inputs\<close>

fun text_xs :: "drawOp list \<Rightarrow> jsnum list" where
  \<comment> \<open>the x coordinates at which texts were filled, in painting order\<close>
  "text_xs [] = []"
| "text_xs (FillText st t x y # ops) = x # text_xs ops"
| "text_xs (_ # ops) = text_xs ops"

definition in_text_box ::
  "platform \<Rightarrow> state \<Rightarrow> jsnum \<Rightarrow> jsnum \<Rightarrow> jsstring \<Rightarrow> position \<Rightarrow> bool" where
  \<comment> \<open>the hit region in the words of the specification, to compare \<^verbatim>\<open>isMouseOverText\<close>
      with: horizontally the anchor's pixel position plus and minus half the measured
      width of the uppercased text, vertically from one font size above the anchor to a
      fifth of the font size below it, the edges included\<close>
  "in_text_box p s pointerX pointerY t pos =
     (let anchorX = jmul (rx pos) (of_dim (canvas_width s));
          anchorY = jmul (ry pos) (of_dim (canvas_height s));
          halfWidth = jdiv (measureText p (fontSize s) (toUpperCase p t)) (Fin 2)
      in jle (jsub anchorX halfWidth) pointerX \<and> jle pointerX (jadd anchorX halfWidth)
         \<and> jle (jsub anchorY (fontSize s)) pointerY
         \<and> jle pointerY (jadd anchorY (jmul (fontSize s) (lit (1 / 5)))))"

definition active :: "state \<Rightarrow> bool" where
  \<comment> \<open>a drag session as \<^verbatim>\<open>handleDragStart\<close> creates it\<close>
  "active s \<longleftrightarrow>
     isDragging s \<and> draggingText s \<noteq> None
     \<and> topTextPosition s \<noteq> None \<and> bottomTextPosition s \<noteq> None"

definition example_platform :: platform where
  \<comment> \<open>a browser in which every code unit is 20 pixels wide\<close>
  "example_platform =
     \<lparr>ctx = True, measureText = (\<lambda>fs t. Fin (20 * of_nat (length t))),
      toUpperCase = (\<lambda>t. t), toDataURL = (\<lambda>w h ops. [])\<rparr>"

definition wide_image :: imageEl where
  "wide_image = \<lparr>width = 800, height = 400, el_src = []\<rparr>"

definition photo_image :: imageEl where
  "photo_image = \<lparr>width = 300, height = 200, el_src = []\<rparr>"

definition square_image :: imageEl where
  "square_image = \<lparr>width = 1000, height = 1000, el_src = []\<rparr>"

definition small_square :: imageEl where
  "small_square = \<lparr>width = 300, height = 300, el_src = []\<rparr>"

definition banner_image :: imageEl where
  "banner_image = \<lparr>width = 400, height = 275, el_src = []\<rparr>"

definition loaded :: "imageEl \<Rightarrow> state" where
  \<comment> \<open>the page right after an image has been stored, before any render\<close>
  "loaded img = (initial 300 150)\<lparr>image_el := Some img\<rparr>"

definition page_layout :: layout where
  \<comment> \<open>a container 400 pixels wide, the canvas shown at its own size in the page's corner\<close>
  "page_layout =
     \<lparr>clientWidth = 400, rect_left = Fin 0, rect_top = Fin 0, rect_width = Fin 400,
      rect_height = Fin 400\<rparr>"

definition scene :: state where
  \<comment> \<open>a square image on a 400 by 400 canvas, two captions, the top one at \<^verbatim>\<open>(0.5, 0.1)\<close>\<close>
  "scene =
     \<lparr>image_el = Some square_image, uploadedImages = [], nextImageId = 0, baseImageId = None,
      sourceImageIds = [], topText = js ''HI'', bottomText = js ''YO'', fontSize = Fin 40,
      textColor = default_textColor,
      topTextPosition = Some \<lparr>rx = Fin (1 / 2), ry = lit (1 / 10)\<rparr>,
      bottomTextPosition = Some \<lparr>rx = Fin (1 / 2), ry = lit (9 / 10)\<rparr>,
      isDragging = False, draggingText = None, dragStartX = Fin 0, dragStartY = Fin 0,
      canvas_width = 400, canvas_height = 400, surface = [], cursor = CursorUnset\<rparr>"

definition grabbed :: state where
  \<comment> \<open>the pointer goes down on the top caption\<close>
  "grabbed = handleDragStart example_platform page_layout (Fin 200) (Fin 40) scene"

definition stacked :: state where
  \<comment> \<open>the bottom caption dragged onto the top one\<close>
  "stacked = scene\<lparr>bottomTextPosition := Some \<lparr>rx = Fin (1 / 2), ry = lit (1 / 10)\<rparr>\<rparr>"

definition restyled :: state where
  \<comment> \<open>the font size set to 60 and the colour to red\<close>
  "restyled =
     textColorPicker_input example_platform 400 (js ''#ff0000'')
       (fontSizeSlider_input example_platform 400 (Fin 60) scene)"

definition rendered :: state where
  \<comment> \<open>the scene as a container 400 pixels wide shows it\<close>
  "rendered = redrawCanvas example_platform 400 scene"

definition dragged_left :: state where
  \<comment> \<open>the top caption dragged 177 pixels to the left\<close>
  "dragged_left = handleDragMove example_platform page_layout (Fin 23) (Fin 40) grabbed"

definition banner_scene :: state where
  \<comment> \<open>a 400 by 275 image replaces the square one\<close>
  "banner_scene = onload example_platform 400 banner_image scene"

definition blank_scene :: state where
  \<comment> \<open>the top caption is one space\<close>
  "blank_scene = scene\<lparr>topText := js '' ''\<rparr>"

section \<open>Properties\<close>

text \<open>
  The rounding equations of the three arithmetic operations are left out of the
  simplifier's rules: a proof about all numbers never unfolds the rounding, and a proof
  about an example uses the operation's value on the example's doubles.
\<close>

declare ilog2.simps [simp del]

declare jadd.simps(1) [simp del] jmul.simps(1) [simp del] jdiv.simps(1) [simp del]

subsection \<open>Auxiliary facts\<close>

lemma round_double_zero: "round_double 0 = Fin 0"
  by (simp add: round_double_def)

lemma toCanvasDim_simps:
  "toCanvasDim (Fin a) = nat \<lfloor>a\<rfloor>" "toCanvasDim PInf = 0" "toCanvasDim NInf = 0"
  "toCanvasDim NaN = 0"
  by (simp_all add: toCanvasDim_def)

lemma resetTextPositions_fields:
  "canvas_width (resetTextPositions p s) = canvas_width s"
  "canvas_height (resetTextPositions p s) = canvas_height s"
  "image_el (resetTextPositions p s) = image_el s"
  "topText (resetTextPositions p s) = topText s"
  "bottomText (resetTextPositions p s) = bottomText s"
  "fontSize (resetTextPositions p s) = fontSize s"
  "textColor (resetTextPositions p s) = textColor s"
  "isDragging (resetTextPositions p s) = isDragging s"
  "draggingText (resetTextPositions p s) = draggingText s"
  "dragStartX (resetTextPositions p s) = dragStartX s"
  "dragStartY (resetTextPositions p s) = dragStartY s"
  "surface (resetTextPositions p s) = surface s"
  "cursor (resetTextPositions p s) = cursor s"
  by (simp_all add: resetTextPositions_def)

lemma redrawCanvas_canvas:
  assumes "ctx p" and "image_el s = Some img"
  shows "canvas_width (redrawCanvas p cw s)
           = toCanvasDim (jmul (of_dim (width img)) (scale_of cw img))"
    and "canvas_height (redrawCanvas p cw s)
           = toCanvasDim (jmul (of_dim (height img)) (scale_of cw img))"
  using assms
  by (simp_all add: redrawCanvas_def Let_def resetTextPositions_fields split: option.splits)

lemma redrawCanvas_fields:
  "image_el (redrawCanvas p cw s) = image_el s"
  "uploadedImages (redrawCanvas p cw s) = uploadedImages s"
  "nextImageId (redrawCanvas p cw s) = nextImageId s"
  "baseImageId (redrawCanvas p cw s) = baseImageId s"
  "sourceImageIds (redrawCanvas p cw s) = sourceImageIds s"
  "topText (redrawCanvas p cw s) = topText s"
  "bottomText (redrawCanvas p cw s) = bottomText s"
  "fontSize (redrawCanvas p cw s) = fontSize s"
  "textColor (redrawCanvas p cw s) = textColor s"
  "isDragging (redrawCanvas p cw s) = isDragging s"
  "draggingText (redrawCanvas p cw s) = draggingText s"
  "dragStartX (redrawCanvas p cw s) = dragStartX s"
  "dragStartY (redrawCanvas p cw s) = dragStartY s"
  "cursor (redrawCanvas p cw s) = cursor s"
  by (simp_all add: redrawCanvas_def resetTextPositions_def Let_def split: option.splits)

lemma redrawCanvas_anchored:
  assumes "topTextPosition s \<noteq> None"
  shows "topTextPosition (redrawCanvas p cw s) = topTextPosition s"
    and "bottomTextPosition (redrawCanvas p cw s) = bottomTextPosition s"
  using assms by (auto simp add: redrawCanvas_def Let_def split: option.splits)

lemma redrawCanvas_initialises:
  assumes "ctx p" and "image_el s = Some img" and "topTextPosition s = None"
    and "canvas_width (redrawCanvas p cw s) \<noteq> 0"
    and "canvas_height (redrawCanvas p cw s) \<noteq> 0"
  shows "topTextPosition (redrawCanvas p cw s) =
           Some \<lparr>rx = Fin (1 / 2),
                 ry = jdiv (jmul (fontSize s) (lit (6 / 5)))
                        (of_dim (canvas_height (redrawCanvas p cw s)))\<rparr>"
    and "bottomTextPosition (redrawCanvas p cw s) =
           Some \<lparr>rx = Fin (1 / 2),
                 ry = jdiv (jsub (of_dim (canvas_height (redrawCanvas p cw s)))
                              (jmul (fontSize s) (lit (2 / 5))))
                        (of_dim (canvas_height (redrawCanvas p cw s)))\<rparr>"
proof -
  let ?w = "toCanvasDim (jmul (of_dim (width img)) (scale_of cw img))"
  let ?h = "toCanvasDim (jmul (of_dim (height img)) (scale_of cw img))"
  have w: "?w \<noteq> 0" and h: "?h \<noteq> 0"
    using assms redrawCanvas_canvas [OF assms(1,2), of cw] by simp_all
  show "topTextPosition (redrawCanvas p cw s) =
           Some \<lparr>rx = Fin (1 / 2),
                 ry = jdiv (jmul (fontSize s) (lit (6 / 5)))
                        (of_dim (canvas_height (redrawCanvas p cw s)))\<rparr>"
    using assms(1-3) w h
    by (simp add: redrawCanvas_canvas [OF assms(1,2)])
       (simp add: redrawCanvas_def resetTextPositions_def Let_def)
  show "bottomTextPosition (redrawCanvas p cw s) =
           Some \<lparr>rx = Fin (1 / 2),
                 ry = jdiv (jsub (of_dim (canvas_height (redrawCanvas p cw s)))
                              (jmul (fontSize s) (lit (2 / 5))))
                        (of_dim (canvas_height (redrawCanvas p cw s)))\<rparr>"
    using assms(1-3) w h
    by (simp add: redrawCanvas_canvas [OF assms(1,2)])
       (simp add: redrawCanvas_def resetTextPositions_def Let_def)
qed

lemma redrawCanvas_uninitialised:
  assumes "image_el s = Some img" and "topTextPosition s = None"
    and "\<not> ctx p \<or> canvas_width (redrawCanvas p cw s) = 0
         \<or> canvas_height (redrawCanvas p cw s) = 0"
  shows "topTextPosition (redrawCanvas p cw s) = None"
    and "bottomTextPosition (redrawCanvas p cw s) = bottomTextPosition s"
proof -
  have "topTextPosition (redrawCanvas p cw s) = None
      \<and> bottomTextPosition (redrawCanvas p cw s) = bottomTextPosition s"
  proof (cases "ctx p")
    case False
    then show ?thesis using assms(1,2) by (simp add: redrawCanvas_def)
  next
    case True
    with assms(3) redrawCanvas_canvas [OF True assms(1), of cw]
    have "toCanvasDim (jmul (of_dim (width img)) (scale_of cw img)) = 0
        \<or> toCanvasDim (jmul (of_dim (height img)) (scale_of cw img)) = 0"
      by simp
    then show ?thesis
      using True assms(1,2)
      by (auto simp add: redrawCanvas_def resetTextPositions_def Let_def)
  qed
  then show "topTextPosition (redrawCanvas p cw s) = None"
    and "bottomTextPosition (redrawCanvas p cw s) = bottomTextPosition s"
    by simp_all
qed

lemma jmul_zero_dim: "toCanvasDim (jmul (Fin 0) x) = 0"
  by (cases x) (simp_all add: signed_inf_def jmul.simps(1) round_double_zero toCanvasDim_simps)

lemma scale_of_zero_container:
  assumes "0 < width img" and "0 < height img"
  shows "scale_of 0 img = Fin 0"
  using assms by (simp add: scale_of_def of_dim_def jmin_def jdiv.simps(1) round_double_zero)

lemma degenerate_canvas:
  assumes "cw = 0 \<or> width img = 0 \<or> height img = 0"
  shows "toCanvasDim (jmul (of_dim (width img)) (scale_of cw img)) = 0
       \<or> toCanvasDim (jmul (of_dim (height img)) (scale_of cw img)) = 0"
proof (cases "width img = 0 \<or> height img = 0")
  case True
  then show ?thesis by (auto simp add: of_dim_def jmul_zero_dim)
next
  case False
  with assms have "cw = 0" and "0 < width img" and "0 < height img" by simp_all
  then show ?thesis
    by (simp add: scale_of_zero_container of_dim_def jmul.simps(1) round_double_zero
        toCanvasDim_simps)
qed

lemma degenerate_redraw_state:
  assumes "image_el s = Some img" and "cw = 0 \<or> width img = 0 \<or> height img = 0"
  shows "redrawCanvas p cw s =
     s\<lparr>canvas_width := canvas_width (redrawCanvas p cw s),
       canvas_height := canvas_height (redrawCanvas p cw s),
       surface := surface (redrawCanvas p cw s)\<rparr>"
  using assms(1) degenerate_canvas [OF assms(2)]
  by (auto simp add: redrawCanvas_def resetTextPositions_def Let_def split: option.splits)

lemma redrawCanvas_paints:
  assumes "ctx p" and "image_el s = Some img"
    and "topTextPosition s = Some tp" and "bottomTextPosition s = Some bp"
  shows "surface (redrawCanvas p cw s) = paint p img tp bp (redrawCanvas p cw s)"
  using assms by (simp add: redrawCanvas_def Let_def paint_def drawText_def style_of_def)

lemma text_xs_paint:
  "text_xs (paint p img tp bp s)
     = [jmul (rx tp) (of_dim (canvas_width s)), jmul (rx bp) (of_dim (canvas_width s))]"
  by (simp add: paint_def drawText_def Let_def)

lemma length_paint: "length (paint p img tp bp s) = 6"
  by (simp add: paint_def drawText_def Let_def)

lemma handleDragMove_image:
  "image_el (handleDragMove p l clientX clientY s) = image_el s"
  by (simp add: handleDragMove_def Let_def redrawCanvas_fields
      split: prod.splits option.splits overlay.splits)

lemma handleDragMove_canvas:
  assumes "ctx p" and "image_el s = Some img"
    and "isDragging s" and "topTextPosition s = Some tp" and "bottomTextPosition s = Some bp"
  shows "canvas_width (handleDragMove p l clientX clientY s)
           = toCanvasDim (jmul (of_dim (width img)) (scale_of (clientWidth l) img))"
    and "canvas_height (handleDragMove p l clientX clientY s)
           = toCanvasDim (jmul (of_dim (height img)) (scale_of (clientWidth l) img))"
  using assms
  by (simp_all add: handleDragMove_def Let_def redrawCanvas_canvas [OF assms(1), of _ img]
      split: prod.splits option.splits overlay.splits)

lemma handleDragMove_step:
  assumes "isDragging s"
    and "topTextPosition s = Some tp" and "bottomTextPosition s = Some bp"
    and "getCanvasCoordinates l s clientX clientY = (mouseX, mouseY)"
    and "s' = handleDragMove p l clientX clientY s"
    and "dx = jsub mouseX (dragStartX s)" and "dy = jsub mouseY (dragStartY s)"
  shows "(draggingText s = Some TopText \<longrightarrow>
            topTextPosition s' =
              Some \<lparr>rx = jadd (rx tp) (jdiv dx (of_dim (canvas_width s))),
                    ry = jadd (ry tp) (jdiv dy (of_dim (canvas_height s)))\<rparr>
            \<and> bottomTextPosition s' = Some bp)
       \<and> (draggingText s = Some BottomText \<longrightarrow>
            bottomTextPosition s' =
              Some \<lparr>rx = jadd (rx bp) (jdiv dx (of_dim (canvas_width s))),
                    ry = jadd (ry bp) (jdiv dy (of_dim (canvas_height s)))\<rparr>
            \<and> topTextPosition s' = Some tp)
       \<and> dragStartX s' = mouseX \<and> dragStartY s' = mouseY
       \<and> isDragging s' \<and> draggingText s' = draggingText s"
proof -
  define s2 where "s2 =
    (case draggingText s of
       Some TopText \<Rightarrow>
         s\<lparr>cursor := CursorMove, topTextPosition := Some (moveBy dx dy s tp)\<rparr>
     | Some BottomText \<Rightarrow>
         s\<lparr>cursor := CursorMove, bottomTextPosition := Some (moveBy dx dy s bp)\<rparr>
     | None \<Rightarrow> s\<lparr>cursor := CursorMove\<rparr>)"
  have s': "s' = redrawCanvas p (clientWidth l)
                   (s2\<lparr>dragStartX := mouseX, dragStartY := mouseY\<rparr>)"
    using assms(1-4)
    by (simp add: assms(5-7) handleDragMove_def Let_def s2_def moveBy_def
        split: option.splits overlay.splits)
  have t: "topTextPosition s2 \<noteq> None"
    using assms(2) by (simp add: s2_def split: option.splits overlay.splits)
  have a: "topTextPosition s' = topTextPosition s2"
    "bottomTextPosition s' = bottomTextPosition s2"
    using t by (simp_all add: s' redrawCanvas_anchored)
  have m: "moveBy dx dy s tp =
             \<lparr>rx = jadd (rx tp) (jdiv dx (of_dim (canvas_width s))),
              ry = jadd (ry tp) (jdiv dy (of_dim (canvas_height s)))\<rparr>"
          "moveBy dx dy s bp =
             \<lparr>rx = jadd (rx bp) (jdiv dx (of_dim (canvas_width s))),
              ry = jadd (ry bp) (jdiv dy (of_dim (canvas_height s)))\<rparr>"
    by (simp_all add: moveBy_def)
  have d: "isDragging s2" "draggingText s2 = draggingText s"
    using assms(1) by (simp_all add: s2_def split: option.splits overlay.splits)
  show ?thesis
    using assms(2,3) d
    by (simp add: a m [symmetric]) (simp add: s' s2_def redrawCanvas_fields)
qed

lemma handleDragStart_active:
  assumes "handleDragStart p l clientX clientY s \<noteq> s"
  shows "active (handleDragStart p l clientX clientY s)"
  using assms
  by (auto simp add: handleDragStart_def startDrag_def active_def Let_def
      split: prod.splits if_splits)

lemma handleDragMove_active:
  assumes "active s"
  shows "active (handleDragMove p l clientX clientY s)"
proof -
  obtain tp bp where t: "topTextPosition s = Some tp" and b: "bottomTextPosition s = Some bp"
    using assms by (auto simp add: active_def)
  obtain mx my where m: "getCanvasCoordinates l s clientX clientY = (mx, my)"
    by (cases "getCanvasCoordinates l s clientX clientY")
  have d: "isDragging s" using assms by (simp add: active_def)
  note k = handleDragMove_step [OF d t b m refl refl refl, of p]
  show ?thesis
  proof (cases "draggingText s")
    case None
    with assms show ?thesis by (simp add: active_def)
  next
    case (Some which)
    with k show ?thesis by (cases which) (simp_all add: active_def)
  qed
qed

lemma handleDragMove_fields:
  "fontSize (handleDragMove p l clientX clientY s) = fontSize s"
  "textColor (handleDragMove p l clientX clientY s) = textColor s"
  "topText (handleDragMove p l clientX clientY s) = topText s"
  "bottomText (handleDragMove p l clientX clientY s) = bottomText s"
  by (simp_all add: handleDragMove_def Let_def redrawCanvas_fields
      split: prod.splits option.splits overlay.splits)

lemma trim_whitespace:
  assumes "\<forall>c\<in>set t. isWhiteSpace c"
  shows "trim t = []"
proof -
  have d: "dropWhile isWhiteSpace t = []"
    using assms by simp
  show ?thesis
    unfolding trim_def d by simp
qed

subsection \<open>The doubles of the examples\<close>

text \<open>
  Each fact below is one operation of the source on the numbers of an example, rounded as
  the definition of \<open>round_double\<close> says. The first group recalls known doubles:
  \<^verbatim>\<open>0.1\<close> as a fraction, the two ties next to \<open>2 ^ 53\<close>, and \<^verbatim>\<open>0.1 + 0.2\<close>.
\<close>

lemma double_checks:
  "lit (1 / 10) = Fin (3602879701896397 / 36028797018963968)"
  "round_double 9007199254740993 = Fin 9007199254740992"
  "round_double 9007199254740995 = Fin 9007199254740996"
  "jadd (lit (1 / 10)) (lit (1 / 5)) = lit (30000000000000004 / 100000000000000000)"
  by code_simp+

lemma scaling_doubles:
  "jdiv (Fin 400) (Fin 300) = lit (4 / 3)"
  "jdiv (Fin 400) (Fin 200) = Fin 2"
  "jmin (lit (4 / 3)) (Fin 2) = lit (4 / 3)"
  "jmul (Fin 300) (lit (4 / 3)) = Fin 400"
  "jmul (Fin 200) (lit (4 / 3)) = lit (26666666666666663 / 100000000000000)"
  "int_part (lit (26666666666666663 / 100000000000000)) = 266"
  "Fin 266 \<noteq> lit (26666666666666663 / 100000000000000)"
  "jdiv (Fin 400) (Fin 800) = Fin (1 / 2)"
  "jdiv (Fin 400) (Fin 400) = Fin 1"
  "jmin (Fin (1 / 2)) (Fin 1) = Fin (1 / 2)"
  "jmul (Fin 800) (Fin (1 / 2)) = Fin 400"
  "jmul (Fin 400) (Fin (1 / 2)) = Fin 200"
  "jdiv (Fin 414) (Fin 300) = lit (69 / 50)"
  "jmin (lit (69 / 50)) (lit (69 / 50)) = lit (69 / 50)"
  "jmul (Fin 300) (lit (69 / 50)) = lit (20699999999999997 / 50000000000000)"
  "int_part (lit (20699999999999997 / 50000000000000)) = 413"
  "jdiv (Fin 400) (Fin 1000) = lit (2 / 5)"
  "jmin (lit (2 / 5)) (lit (2 / 5)) = lit (2 / 5)"
  "jmul (Fin 1000) (lit (2 / 5)) = Fin 400"
  "jdiv (Fin 800) (Fin 1000) = lit (4 / 5)"
  "jmin (lit (4 / 5)) (lit (4 / 5)) = lit (4 / 5)"
  "jmul (Fin 1000) (lit (4 / 5)) = Fin 800"
  "jdiv (Fin 400) (Fin 275) = lit (16 / 11)"
  "jmin (Fin 1) (lit (16 / 11)) = Fin 1"
  "jmul (Fin 400) (Fin 1) = Fin 400"
  "jmul (Fin 275) (Fin 1) = Fin 275"
  "jdiv (Fin 800) (Fin 400) = Fin 2"
  by code_simp+

lemma pointer_doubles:
  "jadd (Fin 200) (Fin 0) = Fin 200"
  "jadd (Fin 210) (Fin 0) = Fin 210"
  "jadd (Fin 220) (Fin 0) = Fin 220"
  "jadd (Fin 23) (Fin 0) = Fin 23"
  "jadd (Fin 40) (Fin 0) = Fin 40"
  "jmul (Fin 200) (Fin 1) = Fin 200"
  "jmul (Fin 210) (Fin 1) = Fin 210"
  "jmul (Fin 220) (Fin 1) = Fin 220"
  "jmul (Fin 23) (Fin 1) = Fin 23"
  "jmul (Fin 40) (Fin 1) = Fin 40"
  by code_simp+

lemma box_doubles:
  "jmul (Fin (1 / 2)) (Fin 400) = Fin 200"
  "jmul (lit (1 / 10)) (Fin 400) = Fin 40"
  "jdiv (Fin 40) (Fin 2) = Fin 20"
  "jadd (Fin 200) (Fin (- 20)) = Fin 180"
  "jadd (Fin 200) (Fin 20) = Fin 220"
  "jadd (Fin 40) (Fin (- 40)) = Fin 0"
  "jmul (Fin 40) (lit (1 / 5)) = Fin 8"
  "jadd (Fin 40) (Fin 8) = Fin 48"
  by code_simp+

lemma drag_doubles:
  "jadd (Fin 210) (Fin (- 200)) = Fin 10"
  "jadd (Fin 220) (Fin (- 210)) = Fin 10"
  "jdiv (Fin 10) (Fin 400) = lit (1 / 40)"
  "jdiv (Fin 0) (Fin 400) = Fin 0"
  "jadd (Fin (1 / 2)) (lit (1 / 40)) = lit (21 / 40)"
  "jadd (lit (21 / 40)) (lit (1 / 40)) = lit (11 / 20)"
  "jadd (lit (1 / 10)) (Fin 0) = lit (1 / 10)"
  "jadd (Fin 23) (Fin (- 200)) = Fin (- 177)"
  "jdiv (Fin (- 177)) (Fin 400) = lit (- (177 / 400))"
  "jadd (Fin (1 / 2)) (lit (- (177 / 400))) = lit (14374999999999999 / 250000000000000000)"
  "jmul (lit (14374999999999999 / 250000000000000000)) (Fin 400) = Fin 23"
  "jdiv (Fin 23) (Fin 400) = lit (23 / 400)"
  "lit (23 / 400) \<noteq> lit (14374999999999999 / 250000000000000000)"
  by code_simp+

lemma anchor_doubles:
  "jmul (Fin 40) (lit (6 / 5)) = Fin 48"
  "jdiv (Fin 48) (Fin 200) = lit (6 / 25)"
  "jmul (Fin 40) (lit (2 / 5)) = Fin 16"
  "jadd (Fin 200) (Fin (- 16)) = Fin 184"
  "jdiv (Fin 184) (Fin 200) = lit (23 / 25)"
  "jdiv (Fin 48) (Fin 275) = lit (1090909090909091 / 6250000000000000)"
  "jadd (Fin 275) (Fin (- 16)) = Fin 259"
  "jdiv (Fin 259) (Fin 275) = lit (259 / 275)"
  "jmul (lit (1090909090909091 / 6250000000000000)) (Fin 275)
     = lit (4800000000000001 / 100000000000000)"
  "jadd (lit (4800000000000001 / 100000000000000)) (Fin (- 40))
     = lit (8000000000000007 / 1000000000000000)"
  "jadd (lit (4800000000000001 / 100000000000000)) (Fin 8)
     = lit (5600000000000001 / 100000000000000)"
  "jle (lit (8000000000000007 / 1000000000000000)) (Fin 8) = False"
  "jle (lit (8000000000000007 / 1000000000000000)) (Fin 9) = True"
  "jle (Fin 8) (lit (5600000000000001 / 100000000000000)) = True"
  "jle (Fin 9) (lit (5600000000000001 / 100000000000000)) = True"
  "jdiv (Fin 20) (Fin 2) = Fin 10"
  "jadd (Fin 200) (Fin (- 10)) = Fin 190"
  "jadd (Fin 200) (Fin 10) = Fin 210"
  by code_simp+

lemma resize_doubles:
  "jmul (Fin (1 / 2)) (Fin 800) = Fin 400"
  "jdiv (Fin 200) (Fin 400) = Fin (1 / 2)"
  "jmul (lit (14374999999999999 / 250000000000000000)) (Fin 800) = Fin 46"
  "jdiv (Fin 46) (Fin 800) = lit (23 / 400)"
  by code_simp+

subsection \<open>The example states\<close>

lemma page_layout_fields:
  "clientWidth page_layout = 400" "rect_left page_layout = Fin 0"
  "rect_top page_layout = Fin 0" "rect_width page_layout = Fin 400"
  "rect_height page_layout = Fin 400"
  by (simp_all add: page_layout_def)

lemma scene_fields:
  "image_el scene = Some square_image" "topText scene = js ''HI''"
  "bottomText scene = js ''YO''" "fontSize scene = Fin 40"
  "topTextPosition scene = Some \<lparr>rx = Fin (1 / 2), ry = lit (1 / 10)\<rparr>"
  "bottomTextPosition scene = Some \<lparr>rx = Fin (1 / 2), ry = lit (9 / 10)\<rparr>"
  "isDragging scene = False" "draggingText scene = None"
  "canvas_width scene = 400" "canvas_height scene = 400" "surface scene = []"
  by (simp_all add: scene_def)

lemma trim_captions: "trim (js ''HI'') \<noteq> []" "trim (js ''YO'') \<noteq> []"
  by (simp_all add: js_def trim_def isWhiteSpace_def)

lemma length_captions: "length (js ''HI'') = 2" "length (js ''YO'') = 2"
  by (simp_all add: js_def)

lemma coordinates_on_scene:
  assumes "canvas_width s = 400" and "canvas_height s = 400"
  shows "getCanvasCoordinates page_layout s (Fin 200) (Fin 40) = (Fin 200, Fin 40)"
    and "getCanvasCoordinates page_layout s (Fin 210) (Fin 40) = (Fin 210, Fin 40)"
    and "getCanvasCoordinates page_layout s (Fin 220) (Fin 40) = (Fin 220, Fin 40)"
    and "getCanvasCoordinates page_layout s (Fin 23) (Fin 40) = (Fin 23, Fin 40)"
  by (simp_all add: getCanvasCoordinates_def page_layout_fields assms of_dim_def jsub_def
      scaling_doubles pointer_doubles)

lemma top_box_of_scene:
  assumes "canvas_width s = 400" and "canvas_height s = 400" and "fontSize s = Fin 40"
    and "length t = 2" and "trim t \<noteq> []"
  shows "isMouseOverText example_platform s (Fin x) (Fin y) t
           (Some \<lparr>rx = Fin (1 / 2), ry = lit (1 / 10)\<rparr>)
         = (180 \<le> x \<and> x \<le> 220 \<and> 0 \<le> y \<and> y \<le> 48)"
  using assms(5)
  by (simp add: isMouseOverText_def example_platform_def assms(1-4) of_dim_def jsub_def jge_def
      Let_def box_doubles)

lemma grabbed_eq:
  "grabbed = scene\<lparr>isDragging := True, draggingText := Some TopText, dragStartX := Fin 200,
                    dragStartY := Fin 40\<rparr>"
  by (simp add: grabbed_def handleDragStart_def scene_fields startDrag_def
      coordinates_on_scene [OF scene_fields(9,10)]
      top_box_of_scene [OF scene_fields(9,10,4) length_captions(1) trim_captions(1)])

lemma grabbed_fields:
  "isDragging grabbed" "draggingText grabbed = Some TopText"
  "topTextPosition grabbed = Some \<lparr>rx = Fin (1 / 2), ry = lit (1 / 10)\<rparr>"
  "bottomTextPosition grabbed = Some \<lparr>rx = Fin (1 / 2), ry = lit (9 / 10)\<rparr>"
  "canvas_width grabbed = 400" "canvas_height grabbed = 400"
  "dragStartX grabbed = Fin 200" "dragStartY grabbed = Fin 40"
  "image_el grabbed = Some square_image" "fontSize grabbed = Fin 40"
  by (simp_all add: grabbed_eq scene_fields)

lemma square_canvas:
  "toCanvasDim (jmul (of_dim (width square_image)) (scale_of 400 square_image)) = 400"
  "toCanvasDim (jmul (of_dim (height square_image)) (scale_of 400 square_image)) = 400"
  "toCanvasDim (jmul (of_dim (width square_image)) (scale_of 800 square_image)) = 800"
  "toCanvasDim (jmul (of_dim (height square_image)) (scale_of 800 square_image)) = 800"
  by (simp_all add: square_image_def scale_of_def of_dim_def scaling_doubles toCanvasDim_simps)

lemma wide_canvas:
  "toCanvasDim (jmul (of_dim (width wide_image)) (scale_of 400 wide_image)) = 400"
  "toCanvasDim (jmul (of_dim (height wide_image)) (scale_of 400 wide_image)) = 200"
  by (simp_all add: wide_image_def scale_of_def of_dim_def scaling_doubles toCanvasDim_simps)

lemma banner_canvas:
  "toCanvasDim (jmul (of_dim (width banner_image)) (scale_of 400 banner_image)) = 400"
  "toCanvasDim (jmul (of_dim (height banner_image)) (scale_of 400 banner_image)) = 275"
  by (simp_all add: banner_image_def scale_of_def of_dim_def scaling_doubles toCanvasDim_simps)

lemma canvas_of_photo:
  "canvas_width (redrawCanvas example_platform 400 (loaded photo_image)) = 400"
  "canvas_height (redrawCanvas example_platform 400 (loaded photo_image)) = 266"
proof -
  have c: "ctx example_platform" by (simp add: example_platform_def)
  have i: "image_el (loaded photo_image) = Some photo_image" by (simp add: loaded_def)
  show "canvas_width (redrawCanvas example_platform 400 (loaded photo_image)) = 400"
    "canvas_height (redrawCanvas example_platform 400 (loaded photo_image)) = 266"
    unfolding redrawCanvas_canvas [OF c i]
    by (simp_all add: photo_image_def scale_of_def of_dim_def scaling_doubles toCanvasDim_def)
qed

lemma rendered_fields:
  "image_el rendered = Some square_image"
  "topTextPosition rendered = Some \<lparr>rx = Fin (1 / 2), ry = lit (1 / 10)\<rparr>"
  "bottomTextPosition rendered = Some \<lparr>rx = Fin (1 / 2), ry = lit (9 / 10)\<rparr>"
  "canvas_width rendered = 400" "canvas_height rendered = 400"
  "surface rendered
     = paint example_platform square_image \<lparr>rx = Fin (1 / 2), ry = lit (1 / 10)\<rparr>
         \<lparr>rx = Fin (1 / 2), ry = lit (9 / 10)\<rparr> rendered"
proof -
  have c: "ctx example_platform" by (simp add: example_platform_def)
  note f = scene_fields
  show "image_el rendered = Some square_image"
    by (simp add: rendered_def redrawCanvas_fields f)
  show "topTextPosition rendered = Some \<lparr>rx = Fin (1 / 2), ry = lit (1 / 10)\<rparr>"
    "bottomTextPosition rendered = Some \<lparr>rx = Fin (1 / 2), ry = lit (9 / 10)\<rparr>"
    by (simp_all add: rendered_def redrawCanvas_anchored f)
  show "canvas_width rendered = 400" "canvas_height rendered = 400"
    by (simp_all add: rendered_def redrawCanvas_canvas [OF c f(1)] square_canvas)
  show "surface rendered
     = paint example_platform square_image \<lparr>rx = Fin (1 / 2), ry = lit (1 / 10)\<rparr>
         \<lparr>rx = Fin (1 / 2), ry = lit (9 / 10)\<rparr> rendered"
    unfolding rendered_def by (rule redrawCanvas_paints [OF c f(1,5,6)])
qed

lemma dragged_left_fields:
  "image_el dragged_left = Some square_image"
  "topTextPosition dragged_left
     = Some \<lparr>rx = lit (14374999999999999 / 250000000000000000), ry = lit (1 / 10)\<rparr>"
  "bottomTextPosition dragged_left = Some \<lparr>rx = Fin (1 / 2), ry = lit (9 / 10)\<rparr>"
  "canvas_width dragged_left = 400" "canvas_height dragged_left = 400"
proof -
  have c: "ctx example_platform" by (simp add: example_platform_def)
  note g = grabbed_fields
  note m = coordinates_on_scene(4) [OF g(5,6)]
  show "image_el dragged_left = Some square_image"
    by (simp add: dragged_left_def handleDragMove_image g)
  show "topTextPosition dragged_left
     = Some \<lparr>rx = lit (14374999999999999 / 250000000000000000), ry = lit (1 / 10)\<rparr>"
    "bottomTextPosition dragged_left = Some \<lparr>rx = Fin (1 / 2), ry = lit (9 / 10)\<rparr>"
    unfolding dragged_left_def
    using handleDragMove_step [OF g(1,3,4) m refl refl refl, of example_platform]
    by (simp_all add: g of_dim_def jsub_def drag_doubles box_doubles)
  show "canvas_width dragged_left = 400" "canvas_height dragged_left = 400"
    unfolding dragged_left_def
    using handleDragMove_canvas [OF c g(9) g(1,3,4), of page_layout "Fin 23" "Fin 40"]
    by (simp_all add: page_layout_fields square_canvas)
qed

lemma banner_scene_fields:
  "canvas_width banner_scene = 400" "canvas_height banner_scene = 275"
  "fontSize banner_scene = Fin 40" "topText banner_scene = js ''HI''"
  "topTextPosition banner_scene
     = Some \<lparr>rx = Fin (1 / 2), ry = lit (1090909090909091 / 6250000000000000)\<rparr>"
proof -
  have c: "ctx example_platform" by (simp add: example_platform_def)
  let ?s = "scene\<lparr>image_el := Some banner_image, topTextPosition := None\<rparr>"
  have i: "image_el ?s = Some banner_image" and t: "topTextPosition ?s = None" by simp_all
  have w: "canvas_width banner_scene = 400" and h: "canvas_height banner_scene = 275"
    unfolding banner_scene_def onload_def
    by (simp_all add: redrawCanvas_canvas [OF c i] banner_canvas)
  show "canvas_width banner_scene = 400" "canvas_height banner_scene = 275"
    by (rule w, rule h)
  show f: "fontSize banner_scene = Fin 40" "topText banner_scene = js ''HI''"
    by (simp_all add: banner_scene_def onload_def redrawCanvas_fields scene_def)
  have nz: "canvas_width (redrawCanvas example_platform 400 ?s) \<noteq> 0"
    "canvas_height (redrawCanvas example_platform 400 ?s) \<noteq> 0"
    using w h by (simp_all add: banner_scene_def onload_def)
  show "topTextPosition banner_scene
     = Some \<lparr>rx = Fin (1 / 2), ry = lit (1090909090909091 / 6250000000000000)\<rparr>"
    using redrawCanvas_initialises(1) [OF c i t nz] h
    by (simp add: banner_scene_def onload_def scene_def of_dim_def anchor_doubles)
qed

subsection \<open>Canvas dimensions\<close>

text \<open>
  C1, as stated, at a 300 by 200 image in a container 400 pixels wide: the scale is the
  double of 4/3, the height times the scale is 266.66666666666663, and the canvas is 266
  pixels high.
\<close>

theorem canvas_height_not_product:
  "of_dim (canvas_height (redrawCanvas example_platform 400 (loaded photo_image)))
     \<noteq> jmul (of_dim (height photo_image)) (scale_of 400 photo_image)"
  by (simp add: canvas_of_photo)
     (simp add: photo_image_def scale_of_def of_dim_def scaling_doubles)

text \<open>
  C1, amended: given a 2D context and a loaded base image, for every container width
  \<^verbatim>\<open>redrawCanvas\<close> computes the scale as the minimum of the container width over the
  image's width and over its height, each quotient a double, multiplies the image's width
  and height by it, each product a double, and the canvas keeps the integer part of each
  product. For a 800 by 400 image in a container 400 pixels wide the canvas is 400 by
  200 and the ratio is that of the image; a 300 by 300 image in a container 414 pixels
  wide gets a canvas of 413 by 413, since 300 * (414 / 300) is 413.99999999999994.
\<close>

theorem redrawCanvas_dimensions:
  assumes "ctx p" and "image_el s = Some img"
    and "scale = jmin (jdiv (of_dim cw) (of_dim (width img)))
                      (jdiv (of_dim cw) (of_dim (height img)))"
    and "s' = redrawCanvas p cw s"
  shows "canvas_width s' = nat (int_part (jmul (of_dim (width img)) scale))
       \<and> canvas_height s' = nat (int_part (jmul (of_dim (height img)) scale))
       \<and> (\<forall>a. jmul (of_dim (width img)) scale = Fin a \<and> 0 \<le> a \<longrightarrow>
              of_nat (canvas_width s') \<le> a \<and> a < of_nat (canvas_width s') + 1)
       \<and> (\<forall>a. jmul (of_dim (height img)) scale = Fin a \<and> 0 \<le> a \<longrightarrow>
              of_nat (canvas_height s') \<le> a \<and> a < of_nat (canvas_height s') + 1)"
proof -
  have w: "canvas_width s' = nat (int_part (jmul (of_dim (width img)) scale))"
    and h: "canvas_height s' = nat (int_part (jmul (of_dim (height img)) scale))"
    using assms(1,2)
    by (simp_all add: assms(3,4) redrawCanvas_canvas scale_of_def toCanvasDim_def)
  have part: "of_nat (nat (int_part (Fin a))) \<le> a \<and> a < of_nat (nat (int_part (Fin a))) + 1"
    if "0 \<le> a" for a :: rat
  proof -
    have "0 \<le> \<lfloor>a\<rfloor>" using that by simp
    then have "(of_nat (nat \<lfloor>a\<rfloor>) :: rat) = of_int \<lfloor>a\<rfloor>" by simp
    moreover have "of_int \<lfloor>a\<rfloor> \<le> a \<and> a < of_int (\<lfloor>a\<rfloor> + 1)"
      by (rule floor_correct)
    ultimately show ?thesis by simp
  qed
  show ?thesis
    using part by (auto simp add: w h)
qed

theorem redrawCanvas_dimensions_witness:
  "ctx example_platform \<and> image_el (loaded wide_image) = Some wide_image
   \<and> canvas_width (redrawCanvas example_platform 400 (loaded wide_image)) = 400
   \<and> canvas_height (redrawCanvas example_platform 400 (loaded wide_image)) = 200
   \<and> jdiv (of_dim 400) (of_dim 200)
       = jdiv (of_dim (width wide_image)) (of_dim (height wide_image))
   \<and> image_el (loaded small_square) = Some small_square
   \<and> canvas_width (redrawCanvas example_platform 414 (loaded small_square)) = 413
   \<and> canvas_height (redrawCanvas example_platform 414 (loaded small_square)) = 413"
proof -
  have c: "ctx example_platform" by (simp add: example_platform_def)
  have i: "image_el (loaded wide_image) = Some wide_image" by (simp add: loaded_def)
  have j: "image_el (loaded small_square) = Some small_square" by (simp add: loaded_def)
  have r: "jdiv (of_dim 400) (of_dim 200)
       = jdiv (of_dim (width wide_image)) (of_dim (height wide_image))"
    by (simp add: wide_image_def of_dim_def scaling_doubles)
  show ?thesis
    using c i j r redrawCanvas_dimensions [OF c i refl refl, of 400]
      redrawCanvas_dimensions [OF c j refl refl, of 414]
    by (simp add: wide_image_def small_square_def of_dim_def scaling_doubles)
qed

subsection \<open>Default anchors\<close>

text \<open>
  C2, as stated, at an image that finishes loading while the container is 0 pixels wide:
  it is the first render after a new base image and no anchors exist, yet none is
  initialised, since \<^verbatim>\<open>resetTextPositions\<close> returns early on a canvas without width or
  height.
\<close>

theorem onload_on_empty_surface:
  "topTextPosition (onload example_platform 0 wide_image (initial 300 150)) = None
   \<and> bottomTextPosition (onload example_platform 0 wide_image (initial 300 150)) = None"
proof -
  let ?s = "(initial 300 150)\<lparr>image_el := Some wide_image, topTextPosition := None\<rparr>"
  have c: "ctx example_platform" by (simp add: example_platform_def)
  have i: "image_el ?s = Some wide_image" and t: "topTextPosition ?s = None"
    and b: "bottomTextPosition ?s = None"
    by (simp_all add: initial_def)
  have z: "(0::nat) = 0 \<or> width wide_image = 0 \<or> height wide_image = 0" by simp
  have d: "\<not> ctx example_platform \<or> canvas_width (redrawCanvas example_platform 0 ?s) = 0
      \<or> canvas_height (redrawCanvas example_platform 0 ?s) = 0"
    using degenerate_canvas [OF z] by (simp add: redrawCanvas_canvas [OF c i])
  show ?thesis
    using redrawCanvas_uninitialised [OF i t d] b by (simp add: onload_def)
qed

text \<open>
  C2, amended: when an image has loaded, whatever the prior state and the pointer events
  before it, then given a 2D context and a rendered canvas of non-zero width and height
  the top anchor is at rx = 0.5, ry = (fontSize * 1.2) / canvas height and the bottom
  anchor at rx = 0.5, ry = (canvas height - fontSize * 0.4) / canvas height, in the
  source's operations on doubles; without a 2D context, or on a canvas without width or
  height, the top anchor is left unset and the bottom anchor is the one of before.
\<close>

theorem onload_resets_anchors:
  assumes "s0 = foldl (dispatch p) s evs" and "s' = onload p cw newImage s0"
  shows "(ctx p \<and> canvas_width s' \<noteq> 0 \<and> canvas_height s' \<noteq> 0 \<longrightarrow>
            topTextPosition s' =
              Some \<lparr>rx = Fin (1 / 2),
                    ry = jdiv (jmul (fontSize s') (lit (6 / 5))) (of_dim (canvas_height s'))\<rparr>
            \<and> bottomTextPosition s' =
              Some \<lparr>rx = Fin (1 / 2),
                    ry = jdiv (jsub (of_dim (canvas_height s')) (jmul (fontSize s') (lit (2 / 5))))
                           (of_dim (canvas_height s'))\<rparr>)
       \<and> (\<not> ctx p \<or> canvas_width s' = 0 \<or> canvas_height s' = 0 \<longrightarrow>
            topTextPosition s' = None \<and> bottomTextPosition s' = bottomTextPosition s0)"
proof -
  define s1 where "s1 = s0\<lparr>image_el := Some newImage, topTextPosition := None\<rparr>"
  have s': "s' = redrawCanvas p cw s1"
    using assms(2) by (simp add: onload_def s1_def)
  have i: "image_el s1 = Some newImage" and t: "topTextPosition s1 = None"
    and b: "bottomTextPosition s1 = bottomTextPosition s0"
    by (simp_all add: s1_def)
  have regular: "topTextPosition s' =
              Some \<lparr>rx = Fin (1 / 2),
                    ry = jdiv (jmul (fontSize s') (lit (6 / 5))) (of_dim (canvas_height s'))\<rparr>
            \<and> bottomTextPosition s' =
              Some \<lparr>rx = Fin (1 / 2),
                    ry = jdiv (jsub (of_dim (canvas_height s')) (jmul (fontSize s') (lit (2 / 5))))
                           (of_dim (canvas_height s'))\<rparr>"
    if "ctx p" and "canvas_width s' \<noteq> 0" and "canvas_height s' \<noteq> 0"
    using redrawCanvas_initialises [OF that(1) i t, of cw] that(2,3)
    unfolding s' by (simp add: redrawCanvas_fields)
  have degenerate: "topTextPosition s' = None \<and> bottomTextPosition s' = bottomTextPosition s0"
    if "\<not> ctx p \<or> canvas_width s' = 0 \<or> canvas_height s' = 0"
    using redrawCanvas_uninitialised [OF i t, of p cw] that b
    unfolding s' by simp
  show ?thesis
    using regular degenerate by blast
qed

theorem onload_resets_anchors_witness:
  "ctx example_platform
   \<and> canvas_width (onload example_platform 400 wide_image
        (foldl (dispatch example_platform) scene
           [PointerDown page_layout (Fin 200) (Fin 40),
            PointerMove page_layout (Fin 210) (Fin 40)])) = 400
   \<and> canvas_height (onload example_platform 400 wide_image
        (foldl (dispatch example_platform) scene
           [PointerDown page_layout (Fin 200) (Fin 40),
            PointerMove page_layout (Fin 210) (Fin 40)])) = 200
   \<and> topTextPosition (foldl (dispatch example_platform) scene
           [PointerDown page_layout (Fin 200) (Fin 40),
            PointerMove page_layout (Fin 210) (Fin 40)])
       = Some \<lparr>rx = lit (21 / 40), ry = lit (1 / 10)\<rparr>
   \<and> topTextPosition (onload example_platform 400 wide_image
        (foldl (dispatch example_platform) scene
           [PointerDown page_layout (Fin 200) (Fin 40),
            PointerMove page_layout (Fin 210) (Fin 40)]))
       = Some \<lparr>rx = Fin (1 / 2), ry = lit (6 / 25)\<rparr>
   \<and> bottomTextPosition (onload example_platform 400 wide_image
        (foldl (dispatch example_platform) scene
           [PointerDown page_layout (Fin 200) (Fin 40),
            PointerMove page_layout (Fin 210) (Fin 40)]))
       = Some \<lparr>rx = Fin (1 / 2), ry = lit (23 / 25)\<rparr>
   \<and> canvas_width (onload example_platform 0 wide_image
        (foldl (dispatch example_platform) scene
           [PointerDown page_layout (Fin 200) (Fin 40),
            PointerMove page_layout (Fin 210) (Fin 40)])) = 0
   \<and> topTextPosition (onload example_platform 0 wide_image
        (foldl (dispatch example_platform) scene
           [PointerDown page_layout (Fin 200) (Fin 40),
            PointerMove page_layout (Fin 210) (Fin 40)])) = None
   \<and> bottomTextPosition (onload example_platform 0 wide_image
        (foldl (dispatch example_platform) scene
           [PointerDown page_layout (Fin 200) (Fin 40),
            PointerMove page_layout (Fin 210) (Fin 40)]))
       = Some \<lparr>rx = Fin (1 / 2), ry = lit (9 / 10)\<rparr>"
proof -
  let ?evs = "[PointerDown page_layout (Fin 200) (Fin 40),
               PointerMove page_layout (Fin 210) (Fin 40)]"
  let ?s = "foldl (dispatch example_platform) scene ?evs"
  let ?s' = "onload example_platform 400 wide_image ?s"
  let ?z = "onload example_platform 0 wide_image ?s"
  have c: "ctx example_platform" by (simp add: example_platform_def)
  have s: "?s = handleDragMove example_platform page_layout (Fin 210) (Fin 40) grabbed"
    by (simp add: grabbed_def)
  note g = grabbed_fields
  note m = coordinates_on_scene(2) [OF g(5,6)]
  have moved: "topTextPosition ?s = Some \<lparr>rx = lit (21 / 40), ry = lit (1 / 10)\<rparr>"
    and kept: "bottomTextPosition ?s = Some \<lparr>rx = Fin (1 / 2), ry = lit (9 / 10)\<rparr>"
    unfolding s
    using handleDragMove_step [OF g(1,3,4) m refl refl refl, of example_platform]
    by (simp_all add: g of_dim_def jsub_def drag_doubles box_doubles)
  have f: "fontSize ?s' = Fin 40"
    unfolding s onload_def by (simp add: redrawCanvas_fields handleDragMove_fields g)
  have w: "canvas_width ?s' = 400" and h: "canvas_height ?s' = 200"
    unfolding s onload_def
    by (simp_all add: redrawCanvas_canvas [OF c, of _ wide_image] wide_canvas)
  have zw: "canvas_width ?z = 0"
    unfolding s onload_def
    by (simp add: redrawCanvas_canvas [OF c, of _ wide_image] scale_of_zero_container
        wide_image_def of_dim_def jmul.simps(1) round_double_zero toCanvasDim_simps)
  have regular: "topTextPosition ?s' = Some \<lparr>rx = Fin (1 / 2), ry = lit (6 / 25)\<rparr>
      \<and> bottomTextPosition ?s' = Some \<lparr>rx = Fin (1 / 2), ry = lit (23 / 25)\<rparr>"
    using onload_resets_anchors [OF refl refl, of example_platform 400 wide_image scene ?evs]
    unfolding f w h
    by (simp add: c of_dim_def jsub_def anchor_doubles)
  have degenerate: "topTextPosition ?z = None
      \<and> bottomTextPosition ?z = Some \<lparr>rx = Fin (1 / 2), ry = lit (9 / 10)\<rparr>"
    using onload_resets_anchors [OF refl refl, of example_platform 0 wide_image scene ?evs]
    unfolding zw kept by simp
  show ?thesis
    using c w h zw moved regular degenerate by simp
qed

subsection \<open>Dragging\<close>

text \<open>
  C3: while a drag session is active (the flag is set and both anchors exist, as in every
  session \<^verbatim>\<open>handleDragStart\<close> creates and \<^verbatim>\<open>handleDragMove\<close> continues), a pointer move adds
  to the dragged overlay's rx the difference between the pointer and the reference point
  divided by the canvas width, and to its ry the difference divided by the canvas height,
  leaves the other overlay where it is, and makes the pointer position the new reference
  point. From the anchor (0.5, 0.1) on a 400 by 400 canvas, two moves of 10 pixels to
  the right give rx = 0.55.
\<close>

theorem handleDragMove_accumulates:
  assumes "isDragging s"
    and "topTextPosition s = Some tp" and "bottomTextPosition s = Some bp"
    and "getCanvasCoordinates l s clientX clientY = (mouseX, mouseY)"
    and "s' = handleDragMove p l clientX clientY s"
    and "dx = jsub mouseX (dragStartX s)" and "dy = jsub mouseY (dragStartY s)"
  shows "(draggingText s = Some TopText \<longrightarrow>
            topTextPosition s' =
              Some \<lparr>rx = jadd (rx tp) (jdiv dx (of_dim (canvas_width s))),
                    ry = jadd (ry tp) (jdiv dy (of_dim (canvas_height s)))\<rparr>
            \<and> bottomTextPosition s' = Some bp)
       \<and> (draggingText s = Some BottomText \<longrightarrow>
            bottomTextPosition s' =
              Some \<lparr>rx = jadd (rx bp) (jdiv dx (of_dim (canvas_width s))),
                    ry = jadd (ry bp) (jdiv dy (of_dim (canvas_height s)))\<rparr>
            \<and> topTextPosition s' = Some tp)
       \<and> dragStartX s' = mouseX \<and> dragStartY s' = mouseY
       \<and> isDragging s' \<and> draggingText s' = draggingText s"
  using assms by (rule handleDragMove_step)

theorem handleDragMove_accumulates_witness:
  "isDragging grabbed \<and> draggingText grabbed = Some TopText
   \<and> topTextPosition grabbed = Some \<lparr>rx = Fin (1 / 2), ry = lit (1 / 10)\<rparr>
   \<and> canvas_width grabbed = 400 \<and> canvas_height grabbed = 400
   \<and> dragStartX grabbed = Fin 200 \<and> dragStartY grabbed = Fin 40
   \<and> topTextPosition
        (handleDragMove example_platform page_layout (Fin 220) (Fin 40)
          (handleDragMove example_platform page_layout (Fin 210) (Fin 40) grabbed))
       = Some \<lparr>rx = lit (11 / 20), ry = lit (1 / 10)\<rparr>"
proof -
  let ?s1 = "handleDragMove example_platform page_layout (Fin 210) (Fin 40) grabbed"
  let ?s2 = "handleDragMove example_platform page_layout (Fin 220) (Fin 40) ?s1"
  have c: "ctx example_platform" by (simp add: example_platform_def)
  note g = grabbed_fields
  note m1 = coordinates_on_scene(2) [OF g(5,6)]
  note k1 = handleDragMove_accumulates [OF g(1,3,4) m1 refl refl refl, of example_platform]
  have w1: "canvas_width ?s1 = 400" "canvas_height ?s1 = 400"
    using handleDragMove_canvas [OF c g(9) g(1,3,4), of page_layout "Fin 210" "Fin 40"]
    by (simp_all add: page_layout_fields square_canvas)
  have t1: "topTextPosition ?s1 = Some \<lparr>rx = lit (21 / 40), ry = lit (1 / 10)\<rparr>"
    and b1: "bottomTextPosition ?s1 = Some \<lparr>rx = Fin (1 / 2), ry = lit (9 / 10)\<rparr>"
    and d1: "isDragging ?s1" "draggingText ?s1 = Some TopText"
      "dragStartX ?s1 = Fin 210" "dragStartY ?s1 = Fin 40"
    using k1 by (simp_all add: g of_dim_def jsub_def drag_doubles box_doubles)
  note m2 = coordinates_on_scene(3) [OF w1]
  note k2 = handleDragMove_accumulates [OF d1(1) t1 b1 m2 refl refl refl, of example_platform]
  have "topTextPosition ?s2 = Some \<lparr>rx = lit (11 / 20), ry = lit (1 / 10)\<rparr>"
    using k2 by (simp add: d1 w1 of_dim_def jsub_def drag_doubles box_doubles)
  then show ?thesis
    using g by simp
qed

text \<open>
  C5: on pointer-down the top overlay is tested first: where the pointer is over both
  texts the drag session targets the top one, and the bottom one is taken only where the
  top one is not hit.
\<close>

theorem handleDragStart_top_first:
  assumes "topTextPosition s = Some tp" and "bottomTextPosition s = Some bp"
    and "getCanvasCoordinates l s clientX clientY = (mouseX, mouseY)"
    and "s' = handleDragStart p l clientX clientY s"
    and "top_hit = isMouseOverText p s mouseX mouseY (topText s) (topTextPosition s)"
    and "bottom_hit = isMouseOverText p s mouseX mouseY (bottomText s) (bottomTextPosition s)"
  shows "(top_hit \<and> bottom_hit \<longrightarrow>
            isDragging s' \<and> draggingText s' = Some TopText
            \<and> dragStartX s' = mouseX \<and> dragStartY s' = mouseY)
       \<and> (top_hit \<longrightarrow> s' = startDrag TopText mouseX mouseY s)
       \<and> (\<not> top_hit \<and> bottom_hit \<longrightarrow> s' = startDrag BottomText mouseX mouseY s)
       \<and> (\<not> top_hit \<and> \<not> bottom_hit \<longrightarrow> s' = s)"
  using assms by (simp add: handleDragStart_def startDrag_def)

theorem handleDragStart_top_first_witness:
  "topTextPosition stacked = bottomTextPosition stacked
   \<and> isMouseOverText example_platform stacked (Fin 200) (Fin 40) (topText stacked)
        (topTextPosition stacked)
   \<and> isMouseOverText example_platform stacked (Fin 200) (Fin 40) (bottomText stacked)
        (bottomTextPosition stacked)
   \<and> draggingText (handleDragStart example_platform page_layout (Fin 200) (Fin 40) stacked)
       = Some TopText
   \<and> isDragging (handleDragStart example_platform page_layout (Fin 200) (Fin 40) stacked)"
proof -
  have t: "topTextPosition stacked = Some \<lparr>rx = Fin (1 / 2), ry = lit (1 / 10)\<rparr>"
    and b: "bottomTextPosition stacked = Some \<lparr>rx = Fin (1 / 2), ry = lit (1 / 10)\<rparr>"
    and f: "canvas_width stacked = 400" "canvas_height stacked = 400"
      "fontSize stacked = Fin 40" "topText stacked = js ''HI''" "bottomText stacked = js ''YO''"
    by (simp_all add: stacked_def scene_def)
  note m = coordinates_on_scene(1) [OF f(1,2)]
  have ht: "isMouseOverText example_platform stacked (Fin 200) (Fin 40) (topText stacked)
        (topTextPosition stacked)"
    unfolding t f(4)
    by (simp add: top_box_of_scene [OF f(1,2,3) length_captions(1) trim_captions(1)])
  have hb: "isMouseOverText example_platform stacked (Fin 200) (Fin 40) (bottomText stacked)
        (bottomTextPosition stacked)"
    unfolding b f(5)
    by (simp add: top_box_of_scene [OF f(1,2,3) length_captions(2) trim_captions(2)])
  show ?thesis
    using t b ht hb handleDragStart_top_first [OF t b m refl refl refl, of example_platform]
    by (simp add: startDrag_def)
qed

subsection \<open>Hit-testing\<close>

text \<open>
  C4, as stated, at a top caption of one space: the content is not empty, the anchor is
  established and the pointer is inside the box, yet the test is false, since the source
  compares the trimmed text with the empty string.
\<close>

theorem blank_text_not_hit:
  "topText blank_scene \<noteq> []
   \<and> topTextPosition blank_scene = Some \<lparr>rx = Fin (1 / 2), ry = lit (1 / 10)\<rparr>
   \<and> in_text_box example_platform blank_scene (Fin 200) (Fin 40) (topText blank_scene)
        \<lparr>rx = Fin (1 / 2), ry = lit (1 / 10)\<rparr>
   \<and> \<not> isMouseOverText example_platform blank_scene (Fin 200) (Fin 40) (topText blank_scene)
         (topTextPosition blank_scene)"
  by (simp add: blank_scene_def scene_def in_text_box_def isMouseOverText_def
      example_platform_def js_def trim_def isWhiteSpace_def of_dim_def jsub_def Let_def
      box_doubles anchor_doubles)

text \<open>
  C4, amended: given a 2D context, for every overlay whose content is not empty after
  trimming whitespace and whose anchor is established, the hit-test is true exactly when
  the pointer is inside the box centred horizontally on the anchor's pixel position, half
  the measured width of the uppercased text to either side, and reaching from the
  anchor's y minus the font size to the anchor's y plus the font size times 0.2, the edges
  being the doubles the source's operations give and the comparisons inclusive; it is
  false for every pointer position when the content is empty or only whitespace, when no
  anchor is established, or without a 2D context. On the 400 by 275 canvas with the
  default anchor the upper edge is 8.000000000000007, so a pointer at y = 8 is outside.
\<close>

theorem isMouseOverText_box:
  "isMouseOverText p s mouseX mouseY t textRelPos
     = (ctx p
        \<and> (case textRelPos of
              None \<Rightarrow> False
            | Some pos \<Rightarrow> trim t \<noteq> [] \<and> in_text_box p s mouseX mouseY t pos))"
  by (auto simp add: isMouseOverText_def in_text_box_def Let_def jge_def split: option.splits)

theorem isMouseOverText_box_witness:
  "ctx example_platform \<and> trim (topText scene) \<noteq> []
   \<and> isMouseOverText example_platform scene (Fin 220) (Fin 48) (topText scene)
        (topTextPosition scene)
   \<and> \<not> isMouseOverText example_platform scene (Fin 221) (Fin 48) (topText scene)
         (topTextPosition scene)
   \<and> \<not> isMouseOverText example_platform scene (Fin 220) (Fin 49) (topText scene)
         (topTextPosition scene)
   \<and> isMouseOverText example_platform scene (Fin 180) (Fin 0) (topText scene)
        (topTextPosition scene)
   \<and> \<not> isMouseOverText example_platform scene (Fin 179) (Fin 0) (topText scene)
         (topTextPosition scene)
   \<and> \<not> isMouseOverText example_platform scene (Fin 180) (Fin (- 1)) (topText scene)
         (topTextPosition scene)
   \<and> canvas_height banner_scene = 275
   \<and> \<not> isMouseOverText example_platform banner_scene (Fin 200) (Fin 8) (topText banner_scene)
         (topTextPosition banner_scene)
   \<and> isMouseOverText example_platform banner_scene (Fin 200) (Fin 9) (topText banner_scene)
        (topTextPosition banner_scene)"
proof -
  have c: "ctx example_platform" by (simp add: example_platform_def)
  have t: "trim (topText scene) \<noteq> []"
    by (simp add: scene_fields trim_captions)
  have b: "in_text_box example_platform scene (Fin x) (Fin y) (topText scene)
             \<lparr>rx = Fin (1 / 2), ry = lit (1 / 10)\<rparr>
           = (180 \<le> x \<and> x \<le> 220 \<and> 0 \<le> y \<and> y \<le> 48)" for x y
    by (simp add: in_text_box_def scene_fields example_platform_def length_captions of_dim_def
        jsub_def Let_def box_doubles)
  have edges: "isMouseOverText example_platform scene (Fin x) (Fin y) (topText scene)
        (topTextPosition scene) = (180 \<le> x \<and> x \<le> 220 \<and> 0 \<le> y \<and> y \<le> 48)" for x y
    using c t b [of x y]
    by (simp add: isMouseOverText_box [of example_platform scene "Fin x" "Fin y"]
        scene_fields(5))
  have bb: "in_text_box example_platform banner_scene (Fin 200) (Fin y) (js ''HI'')
             \<lparr>rx = Fin (1 / 2), ry = lit (1090909090909091 / 6250000000000000)\<rparr>
           = (jle (lit (8000000000000007 / 1000000000000000)) (Fin y)
              \<and> jle (Fin y) (lit (5600000000000001 / 100000000000000)))" for y
    by (simp add: in_text_box_def banner_scene_fields example_platform_def length_captions
        of_dim_def jsub_def Let_def box_doubles anchor_doubles)
  have banner: "isMouseOverText example_platform banner_scene (Fin 200) (Fin y)
        (topText banner_scene) (topTextPosition banner_scene)
      = (jle (lit (8000000000000007 / 1000000000000000)) (Fin y)
         \<and> jle (Fin y) (lit (5600000000000001 / 100000000000000)))" for y
    using c bb [of y]
    by (simp add: isMouseOverText_box [of example_platform banner_scene "Fin 200" "Fin y"]
        banner_scene_fields trim_captions)
  show ?thesis
    using c t by (simp add: edges banner banner_scene_fields(2) anchor_doubles)
qed

text \<open>
  C10: an overlay whose content is not empty but consists of whitespace only is hit at no
  pointer position, so a pointer-down never starts a drag session on it.
\<close>

theorem whitespace_never_hit:
  assumes "t \<noteq> []" and "\<forall>c\<in>set t. isWhiteSpace c"
  shows "trim t = []
       \<and> \<not> isMouseOverText p s mouseX mouseY t textRelPos
       \<and> (topText s = t \<longrightarrow>
            handleDragStart p l clientX clientY s = s
            \<or> draggingText (handleDragStart p l clientX clientY s) = Some BottomText)
       \<and> (bottomText s = t \<longrightarrow>
            handleDragStart p l clientX clientY s = s
            \<or> draggingText (handleDragStart p l clientX clientY s) = Some TopText)"
proof -
  have e: "trim t = []" by (rule trim_whitespace [OF assms(2)])
  have h: "\<not> isMouseOverText p s x y t pos" for x y pos
    by (simp add: isMouseOverText_def e split: option.splits)
  show ?thesis
    using e h
    by (auto simp add: handleDragStart_def startDrag_def Let_def split: prod.splits)
qed

theorem whitespace_never_hit_witness:
  "js ''  '' \<noteq> [] \<and> list_all isWhiteSpace (js ''  '') \<and> trim (js ''  '') = []
   \<and> \<not> isMouseOverText example_platform scene (Fin 200) (Fin 40) (js ''  '')
         (topTextPosition scene)"
proof -
  have n: "js ''  '' \<noteq> []" by (simp add: js_def)
  have w: "\<forall>c\<in>set (js ''  ''). isWhiteSpace c" by (simp add: js_def isWhiteSpace_def)
  show ?thesis
    using n w whitespace_never_hit [OF n w, of example_platform scene "Fin 200" "Fin 40"
        "topTextPosition scene"]
    by (simp add: list_all_iff)
qed

subsection \<open>Export\<close>

text \<open>
  C6: \<^verbatim>\<open>triggerMemeDownload\<close> returns false, and produces nothing, exactly when no image is
  loaded; with an image loaded it returns true and hands the PNG data URL of the canvas
  as it is to the download link.
\<close>

theorem triggerMemeDownload_fails_iff:
  "(fst (triggerMemeDownload p s) = False \<longleftrightarrow> image_el s = None)
   \<and> (image_el s = None \<longrightarrow> triggerMemeDownload p s = (False, None))
   \<and> (image_el s \<noteq> None \<longrightarrow>
        triggerMemeDownload p s
          = (True, Some (toDataURL p (canvas_width s) (canvas_height s) (surface s))))"
  by (simp add: triggerMemeDownload_def split: option.splits)

theorem triggerMemeDownload_fails_iff_witness:
  "image_el (initial 300 150) = None
   \<and> triggerMemeDownload example_platform (initial 300 150) = (False, None)
   \<and> image_el scene \<noteq> None
   \<and> triggerMemeDownload example_platform scene
       = (True, Some (toDataURL example_platform 400 400 []))"
proof -
  have n: "image_el (initial 300 150) = None" by (simp add: initial_def)
  have i: "image_el scene \<noteq> None" "canvas_width scene = 400" "canvas_height scene = 400"
    "surface scene = []"
    by (simp_all add: scene_def)
  show ?thesis
    using n i triggerMemeDownload_fails_iff [of example_platform "initial 300 150"]
      triggerMemeDownload_fails_iff [of example_platform scene]
    by simp
qed

subsection \<open>Remix\<close>

text \<open>
  C7, as stated, after the font size has been set to 60 and the colour to red: the remix
  handler leaves both as they are, so neither has its default value afterwards.
\<close>

theorem remix_keeps_style:
  "fontSize (remixBtn_click restyled) \<noteq> default_fontSize
   \<and> textColor (remixBtn_click restyled) \<noteq> default_textColor"
  by (simp add: remixBtn_click_def setBaseImage_def restyled_def textColorPicker_input_def
      fontSizeSlider_input_def redrawCanvas_fields default_fontSize_def default_textColor_def
      js_def)

text \<open>
  C7, amended: the remix handler clears the base image, the image tray, the top and the
  bottom text, both anchors and the canvas, and leaves the font size and the text colour
  at their current values.
\<close>

theorem remixBtn_click_clears:
  "image_el (remixBtn_click s) = None \<and> baseImageId (remixBtn_click s) = None
   \<and> uploadedImages (remixBtn_click s) = [] \<and> sourceImageIds (remixBtn_click s) = []
   \<and> topText (remixBtn_click s) = [] \<and> bottomText (remixBtn_click s) = []
   \<and> topTextPosition (remixBtn_click s) = None \<and> bottomTextPosition (remixBtn_click s) = None
   \<and> canvas_width (remixBtn_click s) = 0 \<and> canvas_height (remixBtn_click s) = 0
   \<and> surface (remixBtn_click s) = []
   \<and> fontSize (remixBtn_click s) = fontSize s \<and> textColor (remixBtn_click s) = textColor s"
  by (simp add: remixBtn_click_def setBaseImage_def)

theorem remixBtn_click_clears_witness:
  "fontSize restyled = Fin 60 \<and> fontSize (remixBtn_click restyled) = Fin 60
   \<and> image_el (remixBtn_click restyled) = None \<and> topText (remixBtn_click restyled) = []"
proof -
  have f: "fontSize restyled = Fin 60"
    by (simp add: restyled_def textColorPicker_input_def fontSizeSlider_input_def
        redrawCanvas_fields)
  show ?thesis
    using f remixBtn_click_clears [of restyled] by simp
qed

subsection \<open>Degenerate surfaces\<close>

text \<open>
  C8, as stated, at the rendered scene when the container shrinks to 0 pixels: the render
  is not a no-op and does not skip drawing, since the 400 by 400 canvas becomes 0 by 0,
  which discards the painted meme, and the six drawing calls run again.
\<close>

theorem degenerate_render_changes_canvas:
  "canvas_width rendered = 400 \<and> canvas_height rendered = 400
   \<and> length (surface rendered) = 6
   \<and> canvas_width (redrawCanvas example_platform 0 rendered) = 0
   \<and> canvas_height (redrawCanvas example_platform 0 rendered) = 0
   \<and> length (surface (redrawCanvas example_platform 0 rendered)) = 6
   \<and> redrawCanvas example_platform 0 rendered \<noteq> rendered"
proof -
  have c: "ctx example_platform" by (simp add: example_platform_def)
  note r = rendered_fields
  have d: "canvas_width (redrawCanvas example_platform 0 rendered) = 0"
    "canvas_height (redrawCanvas example_platform 0 rendered) = 0"
    by (simp_all add: redrawCanvas_canvas [OF c r(1)] scale_of_zero_container square_image_def
        of_dim_def jmul.simps(1) round_double_zero toCanvasDim_simps)
  have l: "length (surface (redrawCanvas example_platform 0 rendered)) = 6"
    by (simp add: redrawCanvas_paints [OF c r(1,2,3)] length_paint)
  have n: "redrawCanvas example_platform 0 rendered \<noteq> rendered"
  proof
    assume "redrawCanvas example_platform 0 rendered = rendered"
    then have "canvas_width (redrawCanvas example_platform 0 rendered) = canvas_width rendered"
      by simp
    then show False by (simp add: d r)
  qed
  show ?thesis
    using d l n by (simp add: r(4,5)) (simp add: r(6) length_paint)
qed

text \<open>
  C8, amended: when the container is 0 pixels wide, or the image's width or height is 0,
  a render changes nothing but the canvas, for every prior state: the anchors, the texts,
  the font size, the colour, the image and the drag session are those of before.
  Without a 2D context it changes nothing at all. With one, the canvas is left without
  width or without height; no drawing call is made when an anchor is missing, and with
  both anchors the six drawing calls are made on that empty canvas.
\<close>

theorem redrawCanvas_degenerate:
  assumes "image_el s = Some img" and "cw = 0 \<or> width img = 0 \<or> height img = 0"
    and "s' = redrawCanvas p cw s"
  shows "s' = s\<lparr>canvas_width := canvas_width s', canvas_height := canvas_height s',
                 surface := surface s'\<rparr>
       \<and> topTextPosition s' = topTextPosition s \<and> bottomTextPosition s' = bottomTextPosition s
       \<and> topText s' = topText s \<and> bottomText s' = bottomText s
       \<and> fontSize s' = fontSize s \<and> textColor s' = textColor s
       \<and> (\<not> ctx p \<longrightarrow> s' = s)
       \<and> (ctx p \<longrightarrow> canvas_width s' = 0 \<or> canvas_height s' = 0)
       \<and> (ctx p \<longrightarrow> topTextPosition s = None \<or> bottomTextPosition s = None \<longrightarrow>
            surface s' = [])
       \<and> (ctx p \<longrightarrow>
            (\<forall>tp bp. topTextPosition s = Some tp \<and> bottomTextPosition s = Some bp \<longrightarrow>
               surface s' = paint p img tp bp s' \<and> length (surface s') = 6))"
proof -
  have st: "s' = s\<lparr>canvas_width := canvas_width s', canvas_height := canvas_height s',
                 surface := surface s'\<rparr>"
    unfolding assms(3) by (rule degenerate_redraw_state [OF assms(1,2)])
  have a: "topTextPosition s' = topTextPosition s
         \<and> bottomTextPosition s' = bottomTextPosition s"
    by (subst st, subst (2) st) simp
  have n: "\<not> ctx p \<longrightarrow> s' = s"
    using assms(1) by (simp add: assms(3) redrawCanvas_def)
  have z: "ctx p \<longrightarrow> canvas_width s' = 0 \<or> canvas_height s' = 0"
    using degenerate_canvas [OF assms(2)]
    by (auto simp add: assms(3) redrawCanvas_canvas [OF _ assms(1)])
  have e: "ctx p \<longrightarrow> topTextPosition s = None \<or> bottomTextPosition s = None \<longrightarrow>
      surface s' = []"
    using assms(1) degenerate_canvas [OF assms(2)]
    by (auto simp add: assms(3) redrawCanvas_def resetTextPositions_def Let_def
        split: option.splits)
  have d: "ctx p \<longrightarrow>
      (\<forall>tp bp. topTextPosition s = Some tp \<and> bottomTextPosition s = Some bp \<longrightarrow>
         surface s' = paint p img tp bp s' \<and> length (surface s') = 6)"
    using redrawCanvas_paints [OF _ assms(1), of p _ _ cw]
    by (auto simp add: assms(3) length_paint)
  show ?thesis
    using st a n z e d by (simp add: assms(3) redrawCanvas_fields length_paint)
qed

theorem redrawCanvas_degenerate_witness:
  "image_el rendered = Some square_image
   \<and> canvas_width rendered = 400 \<and> canvas_height rendered = 400
   \<and> canvas_width (redrawCanvas example_platform 0 rendered) = 0
   \<and> canvas_height (redrawCanvas example_platform 0 rendered) = 0
   \<and> topTextPosition (redrawCanvas example_platform 0 rendered)
       = Some \<lparr>rx = Fin (1 / 2), ry = lit (1 / 10)\<rparr>
   \<and> bottomTextPosition (redrawCanvas example_platform 0 rendered)
       = Some \<lparr>rx = Fin (1 / 2), ry = lit (9 / 10)\<rparr>
   \<and> topText (redrawCanvas example_platform 0 rendered) = js ''HI''
   \<and> fontSize (redrawCanvas example_platform 0 rendered) = Fin 40
   \<and> image_el (loaded wide_image) = Some wide_image
   \<and> topTextPosition (redrawCanvas example_platform 0 (loaded wide_image)) = None
   \<and> surface (redrawCanvas example_platform 0 (loaded wide_image)) = []"
proof -
  have c: "ctx example_platform" by (simp add: example_platform_def)
  note r = rendered_fields
  have z: "(0::nat) = 0 \<or> width square_image = 0 \<or> height square_image = 0" by simp
  have j: "image_el (loaded wide_image) = Some wide_image"
    and n: "topTextPosition (loaded wide_image) = None"
    by (simp_all add: loaded_def initial_def)
  have y: "(0::nat) = 0 \<or> width wide_image = 0 \<or> height wide_image = 0" by simp
  have f: "topText rendered = js ''HI''" "fontSize rendered = Fin 40"
    by (simp_all add: rendered_def redrawCanvas_fields scene_fields)
  have d: "canvas_width (redrawCanvas example_platform 0 rendered) = 0"
    "canvas_height (redrawCanvas example_platform 0 rendered) = 0"
    by (simp_all add: redrawCanvas_canvas [OF c r(1)] scale_of_zero_container square_image_def
        of_dim_def jmul.simps(1) round_double_zero toCanvasDim_simps)
  have first: "topTextPosition (redrawCanvas example_platform 0 (loaded wide_image)) = None
      \<and> surface (redrawCanvas example_platform 0 (loaded wide_image)) = []"
    using c n redrawCanvas_degenerate [OF j y refl, of example_platform] by simp
  have later: "topTextPosition (redrawCanvas example_platform 0 rendered)
        = Some \<lparr>rx = Fin (1 / 2), ry = lit (1 / 10)\<rparr>
      \<and> bottomTextPosition (redrawCanvas example_platform 0 rendered)
        = Some \<lparr>rx = Fin (1 / 2), ry = lit (9 / 10)\<rparr>
      \<and> topText (redrawCanvas example_platform 0 rendered) = js ''HI''
      \<and> fontSize (redrawCanvas example_platform 0 rendered) = Fin 40"
    using redrawCanvas_degenerate [OF r(1) z refl, of example_platform]
    by (simp add: r f)
  show ?thesis
    using d j first later by (simp add: r)
qed

subsection \<open>Resizing\<close>

text \<open>
  C9, as stated, at the top caption dragged 177 pixels to the left on the 400 by 400
  canvas: its rx is 0.057499999999999996, the text is painted at x = 23, and 23 / 400 is
  0.0575, which is not rx; at 800 by 800 it is painted at x = 46 and 46 / 800 is 0.0575
  again.
\<close>

theorem painted_x_over_width_not_rx:
  "topTextPosition dragged_left
     = Some \<lparr>rx = lit (14374999999999999 / 250000000000000000), ry = lit (1 / 10)\<rparr>
   \<and> canvas_width (redrawCanvas example_platform 400 dragged_left) = 400
   \<and> text_xs (surface (redrawCanvas example_platform 400 dragged_left)) = [Fin 23, Fin 200]
   \<and> jdiv (Fin 23) (of_dim 400) \<noteq> lit (14374999999999999 / 250000000000000000)
   \<and> canvas_width (redrawCanvas example_platform 800 dragged_left) = 800
   \<and> text_xs (surface (redrawCanvas example_platform 800 dragged_left)) = [Fin 46, Fin 400]
   \<and> jdiv (Fin 46) (of_dim 800) \<noteq> lit (14374999999999999 / 250000000000000000)"
proof -
  have c: "ctx example_platform" by (simp add: example_platform_def)
  note d = dragged_left_fields
  have w4: "canvas_width (redrawCanvas example_platform 400 dragged_left) = 400"
    and w8: "canvas_width (redrawCanvas example_platform 800 dragged_left) = 800"
    by (simp_all add: redrawCanvas_canvas [OF c d(1)] square_canvas)
  have x4: "text_xs (surface (redrawCanvas example_platform 400 dragged_left))
      = [Fin 23, Fin 200]"
    by (simp add: redrawCanvas_paints [OF c d(1,2,3)] text_xs_paint w4 of_dim_def drag_doubles
        box_doubles)
  have x8: "text_xs (surface (redrawCanvas example_platform 800 dragged_left))
      = [Fin 46, Fin 400]"
    by (simp add: redrawCanvas_paints [OF c d(1,2,3)] text_xs_paint w8 of_dim_def
        resize_doubles)
  show ?thesis
    using d(2) w4 w8 x4 x8 by (simp add: of_dim_def drag_doubles resize_doubles)
qed

text \<open>
  C9, amended: given a 2D context and a loaded base image, with both anchors established
  a render at one container width followed by a render at another leaves both anchors as
  they were, and each render paints each text at its rx times the canvas width, a double
  product. For the anchor (0.5, 0.1) on a square image the canvas is 400 by 400 in a
  container 400 pixels wide and 800 by 800 in one 800 pixels wide, and in both renders
  the painted x divided by the canvas width is 0.5.
\<close>

theorem resize_keeps_anchors:
  assumes "ctx p" and "image_el s = Some img"
    and "topTextPosition s = Some tp" and "bottomTextPosition s = Some bp"
    and "s1 = redrawCanvas p cw1 s" and "s2 = redrawCanvas p cw2 s1"
  shows "topTextPosition s1 = Some tp \<and> bottomTextPosition s1 = Some bp
       \<and> topTextPosition s2 = Some tp \<and> bottomTextPosition s2 = Some bp
       \<and> text_xs (surface s1)
           = [jmul (rx tp) (of_dim (canvas_width s1)), jmul (rx bp) (of_dim (canvas_width s1))]
       \<and> text_xs (surface s2)
           = [jmul (rx tp) (of_dim (canvas_width s2)), jmul (rx bp) (of_dim (canvas_width s2))]"
proof -
  have t1: "topTextPosition s1 = Some tp" and b1: "bottomTextPosition s1 = Some bp"
    using assms(3,4) by (simp_all add: assms(5) redrawCanvas_anchored)
  have i1: "image_el s1 = Some img"
    by (simp add: assms(2,5) redrawCanvas_fields)
  have t2: "topTextPosition s2 = Some tp" and b2: "bottomTextPosition s2 = Some bp"
    using t1 b1 by (simp_all add: assms(6) redrawCanvas_anchored)
  have p1: "surface s1 = paint p img tp bp s1"
    unfolding assms(5) by (rule redrawCanvas_paints [OF assms(1-4)])
  have p2: "surface s2 = paint p img tp bp s2"
    unfolding assms(6) by (rule redrawCanvas_paints [OF assms(1) i1 t1 b1])
  show ?thesis
    using t1 b1 t2 b2 by (simp add: p1 p2 text_xs_paint)
qed

theorem resize_keeps_anchors_witness:
  "ctx example_platform \<and> image_el scene = Some square_image
   \<and> topTextPosition scene = Some \<lparr>rx = Fin (1 / 2), ry = lit (1 / 10)\<rparr>
   \<and> bottomTextPosition scene = Some \<lparr>rx = Fin (1 / 2), ry = lit (9 / 10)\<rparr>
   \<and> canvas_width (redrawCanvas example_platform 400 scene) = 400
   \<and> canvas_height (redrawCanvas example_platform 400 scene) = 400
   \<and> canvas_width (redrawCanvas example_platform 800 (redrawCanvas example_platform 400 scene))
       = 800
   \<and> canvas_height (redrawCanvas example_platform 800 (redrawCanvas example_platform 400 scene))
       = 800
   \<and> topTextPosition (redrawCanvas example_platform 800 (redrawCanvas example_platform 400 scene))
       = Some \<lparr>rx = Fin (1 / 2), ry = lit (1 / 10)\<rparr>
   \<and> text_xs (surface (redrawCanvas example_platform 400 scene)) = [Fin 200, Fin 200]
   \<and> text_xs (surface (redrawCanvas example_platform 800 (redrawCanvas example_platform 400 scene)))
       = [Fin 400, Fin 400]
   \<and> jdiv (Fin 200) (of_dim 400) = Fin (1 / 2) \<and> jdiv (Fin 400) (of_dim 800) = Fin (1 / 2)"
proof -
  let ?s1 = "redrawCanvas example_platform 400 scene"
  let ?s2 = "redrawCanvas example_platform 800 ?s1"
  have c: "ctx example_platform" by (simp add: example_platform_def)
  note f = scene_fields
  have i1: "image_el ?s1 = Some square_image" by (simp add: redrawCanvas_fields f)
  have w1: "canvas_width ?s1 = 400" and h1: "canvas_height ?s1 = 400"
    by (simp_all add: redrawCanvas_canvas [OF c f(1)] square_canvas)
  have w2: "canvas_width ?s2 = 800" and h2: "canvas_height ?s2 = 800"
    by (simp_all add: redrawCanvas_canvas [OF c i1] square_canvas)
  note k = resize_keeps_anchors [OF c f(1,5,6) refl refl, where ?cw1.0 = 400 and ?cw2.0 = 800]
  have q: "jdiv (Fin 200) (of_dim 400) = Fin (1 / 2)" "jdiv (Fin 400) (of_dim 800) = Fin (1 / 2)"
    by (simp_all add: of_dim_def resize_doubles scaling_doubles)
  have x: "text_xs (surface ?s1) = [Fin 200, Fin 200]"
    "text_xs (surface ?s2) = [Fin 400, Fin 400]"
    "topTextPosition ?s2 = Some \<lparr>rx = Fin (1 / 2), ry = lit (1 / 10)\<rparr>"
    using k by (simp_all add: w1 w2 of_dim_def box_doubles resize_doubles)
  show ?thesis
    using c f(1,5,6) w1 h1 w2 h2 x q by simp
qed

end
